theory Spec2Isabelle
  imports Main "HOL-Library.Word" "HOL-Library.Sublist"
begin

section \<open>JavaScript strings\<close>

text \<open>
  A JavaScript string is a sequence of 16-bit code units. Literals of \<^verbatim>\<open>bin/cli.js\<close> are
  ASCII and are written \<open>js ''...''\<close>; a line break inside a template literal is
  \<open>\<newline>\<close> (code unit 10). \<open>===\<close> on strings is equality of the sequences.
\<close>

type_synonym jsstring = "16 word list"

definition js :: "string \<Rightarrow> jsstring" where
  "js s = map of_char s"

definition sq :: jsstring where
  \<comment> \<open>the single quote, for the places where a literal ends in one\<close>
  "sq = [0x27]"

text \<open>
  The code units matched by \<^verbatim>\<open>\s\<close> in a regular expression and stripped by
  \<^verbatim>\<open>String.prototype.trim\<close>: ECMAScript's WhiteSpace and LineTerminator.
\<close>

definition isSpace :: "16 word \<Rightarrow> bool" where
  "isSpace c = (c \<in> set [0x09, 0x0A, 0x0B, 0x0C, 0x0D, 0x20, 0xA0, 0x1680,
     0x2000, 0x2001, 0x2002, 0x2003, 0x2004, 0x2005, 0x2006, 0x2007, 0x2008, 0x2009, 0x200A,
     0x2028, 0x2029, 0x202F, 0x205F, 0x3000, 0xFEFF])"

text \<open>
  \<^verbatim>\<open>String.prototype.toLowerCase\<close> on the ASCII letters; every other code unit is kept.
  This is JavaScript's result on ASCII strings, which is all the database prompt can supply.
\<close>

definition toLowerCase :: "jsstring \<Rightarrow> jsstring" where
  "toLowerCase s = map (\<lambda>c. if 0x41 \<le> c \<and> c \<le> 0x5A then c + 0x20 else c) s"

text \<open>\<^verbatim>\<open>String.prototype.trim\<close>.\<close>

definition trim :: "jsstring \<Rightarrow> jsstring" where
  "trim s = rev (dropWhile isSpace (rev (dropWhile isSpace s)))"

text \<open>\<^verbatim>\<open>String.prototype.split(',')\<close>: the pieces between the commas, never an empty array.\<close>

fun split_comma :: "jsstring \<Rightarrow> jsstring list" where
  "split_comma [] = [[]]"
| "split_comma (c # cs) =
     (if c = 0x2C then [] # split_comma cs
      else (case split_comma cs of [] \<Rightarrow> [[c]] | p # ps \<Rightarrow> (c # p) # ps))"

text \<open>\<^verbatim>\<open>Array.prototype.join(sep)\<close>.\<close>

fun join :: "jsstring \<Rightarrow> jsstring list \<Rightarrow> jsstring" where
  "join sep [] = []"
| "join sep [x] = x"
| "join sep (x # y # ys) = x @ sep @ join sep (y # ys)"

section \<open>The prompt's choices\<close>

text \<open>The \<^verbatim>\<open>choices\<close> arrays of the \<^verbatim>\<open>database\<close> and \<^verbatim>\<open>orm\<close> questions (lines 34 and 40).\<close>

definition databaseChoices :: "jsstring list" where
  "databaseChoices = [js ''Postgres'', js ''MongoDB'', js ''MySQL'']"

definition ormChoices :: "jsstring list" where
  "ormChoices = [js ''TypeORM'', js ''Mongoose'', js ''Sequelize'']"

section \<open>Dependency resolution\<close>

text \<open>
  \<^verbatim>\<open>getDatabaseDependencies\<close> (lines 166-193): two \<^verbatim>\<open>switch\<close> statements pushing onto
  \<^verbatim>\<open>deps\<close>; a value matching no \<^verbatim>\<open>case\<close> pushes nothing.
\<close>

definition getDatabaseDependencies :: "jsstring \<Rightarrow> jsstring \<Rightarrow> jsstring list" where
  "getDatabaseDependencies database orm =
     (let deps = [];
          deps =
            (if orm = js ''TypeORM'' then deps @ [js ''typeorm'', js ''@nestjs/typeorm'']
             else if orm = js ''Mongoose'' then deps @ [js ''mongoose'', js ''@nestjs/mongoose'']
             else if orm = js ''Sequelize''
               then deps @ [js ''sequelize'', js ''@nestjs/sequelize'', js ''sequelize-typescript'']
             else deps);
          deps =
            (if database = js ''PostgreSQL'' then deps @ [js ''pg'']
             else if database = js ''MongoDB''
               then (if orm \<noteq> js ''Mongoose'' then deps @ [js ''mongodb''] else deps)
             else if database = js ''MySQL'' then deps @ [js ''mysql2'']
             else deps)
      in deps)"

section \<open>Configuration templates\<close>

text \<open>\<^verbatim>\<open>getTypeORMConfig\<close> (lines 224-239).\<close>

definition getTypeORMConfig :: "jsstring \<Rightarrow> jsstring" where
  "getTypeORMConfig database =
     js ''\<newline>import { TypeOrmModuleOptions } from '@nestjs/typeorm';\<newline>\<newline>export const databaseConfig: TypeOrmModuleOptions = {\<newline>  type: ''
     @ sq @ toLowerCase database @ sq
     @ js '',\<newline>  host: 'localhost',\<newline>  port: ''
     @ (if database = js ''PostgreSQL'' then js ''5432'' else js ''3306'')
     @ js '',\<newline>  username: 'your_username',\<newline>  password: 'your_password',\<newline>  database: 'your_database',\<newline>  entities: ['dist/**/*.entity{.ts,.js}'],\<newline>  synchronize: true, // set to false in production\<newline>};\<newline>''"

text \<open>\<^verbatim>\<open>getMongooseConfig\<close> (lines 241-249).\<close>

definition getMongooseConfig :: jsstring where
  "getMongooseConfig =
     js ''\<newline>export const databaseConfig = {\<newline>  uri: 'mongodb://localhost/your_database',\<newline>  useNewUrlParser: true,\<newline>  useUnifiedTopology: true,\<newline>};\<newline>''"

text \<open>\<^verbatim>\<open>getSequelizeConfig\<close> (lines 251-266).\<close>

definition getSequelizeConfig :: "jsstring \<Rightarrow> jsstring" where
  "getSequelizeConfig database =
     js ''\<newline>import { SequelizeModuleOptions } from '@nestjs/sequelize';\<newline>\<newline>export const databaseConfig: SequelizeModuleOptions = {\<newline>  dialect: ''
     @ sq @ toLowerCase database @ sq
     @ js '',\<newline>  host: 'localhost',\<newline>  port: ''
     @ (if database = js ''PostgreSQL'' then js ''5432'' else js ''3306'')
     @ js '',\<newline>  username: 'your_username',\<newline>  password: 'your_password',\<newline>  database: 'your_database',\<newline>  autoLoadModels: true,\<newline>  synchronize: true, // set to false in production\<newline>};\<newline>''"

text \<open>
  The \<^verbatim>\<open>switch (orm)\<close> of \<^verbatim>\<open>createDatabaseConfig\<close> (lines 206-218), which computes
  \<^verbatim>\<open>configContent\<close>; it stays the empty string when no \<^verbatim>\<open>case\<close> matches.
\<close>

definition configContent :: "jsstring \<Rightarrow> jsstring \<Rightarrow> jsstring" where
  "configContent database orm =
     (if orm = js ''TypeORM'' then getTypeORMConfig database
      else if orm = js ''Mongoose'' then getMongooseConfig
      else if orm = js ''Sequelize'' then getSequelizeConfig database
      else [])"

section \<open>Patching the root module's text\<close>

text \<open>
  Both patches are \<^verbatim>\<open>content.replace(/KW:\s*\[([\s\S]*?)\]/, template)\<close>, with \<^verbatim>\<open>KW\<close>
  the literal \<^verbatim>\<open>imports\<close> or \<^verbatim>\<open>providers\<close>. The regular expression has no flag, so it works
  on code units and \<^verbatim>\<open>replace\<close> rewrites the first match only.

  \<open>match_at kw s\<close> runs the pattern anchored at the start of \<open>s\<close>, \<open>kw\<close> being the
  literal with its colon. After the literal, the greedy \<^verbatim>\<open>\s*\<close> takes the whole run of
  white space (giving any of it back leaves a white-space character where \<^verbatim>\<open>\[\<close> is
  wanted), then \<^verbatim>\<open>[\<close> must follow, and the lazy group ends at the first \<^verbatim>\<open>]\<close> after
  it. The result is the text of group 1 and the text after the match.
\<close>

definition match_at :: "jsstring \<Rightarrow> jsstring \<Rightarrow> (jsstring \<times> jsstring) option" where
  "match_at kw s =
     (if prefix kw s then
        (case dropWhile isSpace (drop (length kw) s) of
           [] \<Rightarrow> None
         | c # r \<Rightarrow>
             if c = 0x5B \<and> 0x5D \<in> set r
             then Some (takeWhile (\<lambda>x. x \<noteq> 0x5D) r, tl (dropWhile (\<lambda>x. x \<noteq> 0x5D) r))
             else None)
      else None)"

text \<open>
  \<open>regexp_exec kw s\<close> tries the start positions from left to right, the end of the
  string included, and stops at the first one that matches: the text before the match,
  group 1, and the text after the match.
\<close>

fun regexp_exec :: "jsstring \<Rightarrow> jsstring \<Rightarrow> (jsstring \<times> jsstring \<times> jsstring) option" where
  "regexp_exec kw [] = map_option (\<lambda>(g, a). ([], g, a)) (match_at kw [])"
| "regexp_exec kw (c # cs) =
     (case match_at kw (c # cs) of
        Some (g, a) \<Rightarrow> Some ([], g, a)
      | None \<Rightarrow> map_option (\<lambda>(b, g, a). (c # b, g, a)) (regexp_exec kw cs))"

text \<open>
  \<^verbatim>\<open>String.prototype.replace\<close> with such a pattern: \<open>template g\<close> is the replacement
  string with \<^verbatim>\<open>$1\<close> expanded to \<open>g\<close>, the only \<^verbatim>\<open>$\<close> in the replacement strings of
  \<^verbatim>\<open>bin/cli.js\<close>. Without a match the string is returned as it is.
\<close>

definition replace_first :: "jsstring \<Rightarrow> (jsstring \<Rightarrow> jsstring) \<Rightarrow> jsstring \<Rightarrow> jsstring" where
  "replace_first kw template s =
     (case regexp_exec kw s of None \<Rightarrow> s | Some (b, g, a) \<Rightarrow> b @ template g @ a)"

text \<open>
  Lines 291-294 of \<^verbatim>\<open>updateAppModuleForDatabase\<close>; \<open>moduleImport\<close> is spliced into the
  replacement string, and none of its values in \<^verbatim>\<open>bin/cli.js\<close> has a \<^verbatim>\<open>$\<close>.
\<close>

definition replace_imports :: "jsstring \<Rightarrow> jsstring \<Rightarrow> jsstring" where
  "replace_imports moduleImport content =
     replace_first (js ''imports:'')
       (\<lambda>g. js ''imports: ['' @ g @ js ''\<newline>    '' @ moduleImport @ js ''\<newline>  ]'') content"

text \<open>Lines 388-391 of \<^verbatim>\<open>updateAppModuleForInterceptors\<close>, likewise.\<close>

definition replace_providers :: "jsstring \<Rightarrow> jsstring \<Rightarrow> jsstring" where
  "replace_providers providerStatements content =
     replace_first (js ''providers:'')
       (\<lambda>g. js ''providers: ['' @ g @ providerStatements @ js ''\<newline>  ]'') content"

text \<open>
  The \<^verbatim>\<open>switch (orm)\<close> of \<^verbatim>\<open>updateAppModuleForDatabase\<close> (lines 272-288): the pair
  \<^verbatim>\<open>(importStatement, moduleImport)\<close>, both empty when no \<^verbatim>\<open>case\<close> matches.
\<close>

definition ormStatements :: "jsstring \<Rightarrow> jsstring \<times> jsstring" where
  "ormStatements orm =
     (if orm = js ''TypeORM'' then
        (js ''import { TypeOrmModule } from '@nestjs/typeorm';\<newline>import { databaseConfig } from './config/database.config';'',
         js '',TypeOrmModule.forRoot(databaseConfig),'')
      else if orm = js ''Mongoose'' then
        (js ''import { MongooseModule } from '@nestjs/mongoose';\<newline>import { databaseConfig } from './config/database.config';'',
         js '',MongooseModule.forRoot(databaseConfig.uri),'')
      else if orm = js ''Sequelize'' then
        (js ''import { SequelizeModule } from '@nestjs/sequelize';\<newline>import { databaseConfig } from './config/database.config';'',
         js '',SequelizeModule.forRoot(databaseConfig),'')
      else ([], []))"

text \<open>The new text of the root module computed on lines 290-294.\<close>

definition databasePatch :: "jsstring \<Rightarrow> jsstring \<Rightarrow> jsstring" where
  "databasePatch orm content =
     (let (importStatement, moduleImport) = ormStatements orm;
          content = importStatement @ js ''\<newline>'' @ content
      in replace_imports moduleImport content)"

text \<open>The two constants of \<^verbatim>\<open>updateAppModuleForInterceptors\<close> (lines 372-385).\<close>

definition interceptorImportStatement :: jsstring where
  "interceptorImportStatement =
     js ''\<newline>import { APP_INTERCEPTOR } from '@nestjs/core';\<newline>import { ResponseInterceptor } from './common/interceptors/response/response.interceptor';\<newline>import { ErrorInterceptor } from './common/interceptors/error/error.interceptor';''"

definition providerStatements :: jsstring where
  "providerStatements =
     js '',\<newline>    {\<newline>      provide: APP_INTERCEPTOR,\<newline>      useClass: ResponseInterceptor,\<newline>    },\<newline>    {\<newline>      provide: APP_INTERCEPTOR,\<newline>      useClass: ErrorInterceptor,\<newline>    },''"

text \<open>The new text of the root module computed on lines 387-391.\<close>

definition interceptorsPatch :: "jsstring \<Rightarrow> jsstring" where
  "interceptorsPatch content =
     (let content = interceptorImportStatement @ js ''\<newline>'' @ content
      in replace_providers providerStatements content)"

text \<open>The bodies written by \<^verbatim>\<open>updateResponseInterceptor\<close> and \<^verbatim>\<open>updateErrorInterceptor\<close>.\<close>

definition responseInterceptorContent :: jsstring where
  "responseInterceptorContent =
     js ''\<newline>import { Injectable, NestInterceptor, ExecutionContext, CallHandler } from '@nestjs/common';\<newline>import { Observable } from 'rxjs';\<newline>import { map } from 'rxjs/operators';\<newline>\<newline>export interface Response<T> {\<newline>  statusCode: number;\<newline>  message: string;\<newline>  data: T;\<newline>}\<newline>\<newline>@Injectable()\<newline>export class ResponseInterceptor<T> implements NestInterceptor<T, Response<T>> {\<newline>  intercept(context: ExecutionContext, next: CallHandler): Observable<Response<T>> {\<newline>    return next.handle().pipe(\<newline>      map(data => ({\<newline>        statusCode: context.switchToHttp().getResponse().statusCode,\<newline>        message: 'Success',\<newline>        data,\<newline>      })),\<newline>    );\<newline>  }\<newline>}\<newline>''"

definition errorInterceptorContent :: jsstring where
  "errorInterceptorContent =
     js ''\<newline>import {\<newline>  Injectable,\<newline>  NestInterceptor,\<newline>  ExecutionContext,\<newline>  CallHandler,\<newline>  HttpException,\<newline>  HttpStatus,\<newline>} from '@nestjs/common';\<newline>import { Observable, throwError } from 'rxjs';\<newline>import { catchError } from 'rxjs/operators';\<newline>\<newline>@Injectable()\<newline>export class ErrorInterceptor implements NestInterceptor {\<newline>  intercept(context: ExecutionContext, next: CallHandler): Observable<any> {\<newline>    return next.handle().pipe(\<newline>      catchError(err => {\<newline>        if (err instanceof HttpException) {\<newline>          return throwError(() => err);\<newline>        }\<newline>        return throwError(() => new HttpException({\<newline>          statusCode: HttpStatus.INTERNAL_SERVER_ERROR,\<newline>          message: 'Internal server error',\<newline>          error: err.message,\<newline>        }, HttpStatus.INTERNAL_SERVER_ERROR));\<newline>      }),\<newline>    );\<newline>  }\<newline>}\<newline>''"

section \<open>The file system and the subprocesses\<close>

text \<open>
  A path is an absolute, normalised POSIX path, kept as the list of its segments (the root
  is the empty list). \<^verbatim>\<open>path.join(dir, name)\<close> normalises \<^verbatim>\<open>dir + '/' + name\<close>: the
  pieces of \<open>name\<close> between slashes are taken in turn, an empty piece and \<^verbatim>\<open>.\<close> are
  skipped, \<^verbatim>\<open>..\<close> drops the last segment (none at the root), any other piece is appended.
  A trailing slash, which \<^verbatim>\<open>path.join\<close> keeps, names the same path and is not kept.
  Joining literals of plain names, as in \<^verbatim>\<open>path.join(appDir, 'src', 'app.module.ts')\<close> or
  \<^verbatim>\<open>'src/common/interceptors'\<close>, appends them and is written so. \<^verbatim>\<open>path.basename\<close> is the
  last segment and \<^verbatim>\<open>path.dirname\<close> the path without it. The file system maps the paths
  of the files to their text; directories are not tracked.
\<close>

type_synonym path = "jsstring list"

fun path_pieces :: "jsstring \<Rightarrow> jsstring list" where
  "path_pieces [] = [[]]"
| "path_pieces (c # cs) =
     (if c = 0x2F then [] # path_pieces cs
      else (case path_pieces cs of [] \<Rightarrow> [[c]] | p # ps \<Rightarrow> (c # p) # ps))"

definition path_join :: "path \<Rightarrow> jsstring \<Rightarrow> path" where
  "path_join dir name =
     foldl (\<lambda>p piece.
              if piece = [] \<or> piece = js ''.'' then p
              else if piece = js ''..'' then butlast p
              else p @ [piece])
       dir (path_pieces name)"

type_synonym filesystem = "path \<rightharpoonup> jsstring"

definition basename :: "path \<Rightarrow> jsstring" where
  "basename p = (if p = [] then [] else last p)"

definition dirname :: "path \<Rightarrow> path" where
  "dirname p = butlast p"

datatype fs_call = EnsureDir path | ReadFile path | WriteFile path

datatype error =
    EnsureDirError path
  | ReadFileError path
  | WriteFileError path
  | ExecError jsstring path

text \<open>
  What the program cannot decide is a parameter: the working directory of the process,
  what a subprocess does to the files and whether it exits with status 0, and which calls
  of the file system fail (permissions, a full disk, a file where a directory is wanted).
\<close>

record env =
  cwd :: path
  subprocess :: "jsstring \<Rightarrow> path \<Rightarrow> filesystem \<Rightarrow> bool \<times> filesystem"
  fs_fails :: "fs_call \<Rightarrow> filesystem \<Rightarrow> bool"

text \<open>
  The state threaded through the pipeline: the files, and the subprocess calls issued so
  far, each with its working directory. Console output is left out.
\<close>

record world =
  files :: filesystem
  calls :: "(jsstring \<times> path) list"

text \<open>
  An \<^verbatim>\<open>async\<close> function takes the world and returns the world it leaves with either the
  value it resolves to or the error it rejects with. \<open>await m f\<close> is
  \<^verbatim>\<open>const x = await m; f(x)\<close>: a rejection of \<open>m\<close> skips \<open>f\<close>.
\<close>

type_synonym 'a io = "world \<Rightarrow> (error + 'a) \<times> world"

definition resolved :: "'a \<Rightarrow> 'a io" where
  "resolved x w = (Inr x, w)"

definition await :: "'a io \<Rightarrow> ('a \<Rightarrow> 'b io) \<Rightarrow> 'b io" where
  "await m f w = (case m w of (Inl e, w') \<Rightarrow> (Inl e, w') | (Inr x, w') \<Rightarrow> f x w')"

text \<open>\<^verbatim>\<open>fs.ensureDir\<close>, \<^verbatim>\<open>fs.readFile(p, 'utf8')\<close> and \<^verbatim>\<open>fs.writeFile\<close>; a write is all or nothing.\<close>

definition ensureDir :: "env \<Rightarrow> path \<Rightarrow> unit io" where
  "ensureDir e p w =
     (if fs_fails e (EnsureDir p) (files w) then (Inl (EnsureDirError p), w) else (Inr (), w))"

definition readFile :: "env \<Rightarrow> path \<Rightarrow> jsstring io" where
  "readFile e p w =
     (case files w p of
        None \<Rightarrow> (Inl (ReadFileError p), w)
      | Some content \<Rightarrow>
          if fs_fails e (ReadFile p) (files w) then (Inl (ReadFileError p), w)
          else (Inr content, w))"

definition writeFile :: "env \<Rightarrow> path \<Rightarrow> jsstring \<Rightarrow> unit io" where
  "writeFile e p content w =
     (if fs_fails e (WriteFile p) (files w) then (Inl (WriteFileError p), w)
      else (Inr (), w\<lparr>files := (files w)(p \<mapsto> content)\<rparr>))"

text \<open>
  \<^verbatim>\<open>execPromise(command, { cwd })\<close>: the call is recorded, the subprocess acts on the
  files, and the promise rejects when it does not exit with status 0.
\<close>

definition execPromise :: "env \<Rightarrow> jsstring \<Rightarrow> path \<Rightarrow> unit io" where
  "execPromise e command dir w =
     (let (ok, fs') = subprocess e command dir (files w);
          w' = w\<lparr>files := fs', calls := calls w @ [(command, dir)]\<rparr>
      in (if ok then Inr () else Inl (ExecError command dir), w'))"

section \<open>The pipeline\<close>

text \<open>\<^verbatim>\<open>generateBaseStructure\<close> (lines 86-105); the \<^verbatim>\<open>catch\<close> logs and rethrows.\<close>

definition generateBaseStructure :: "env \<Rightarrow> path \<Rightarrow> unit io" where
  "generateBaseStructure e appDir =
     (let appName = basename appDir;
          parentDir = dirname appDir
      in execPromise e
           (js ''nest new '' @ appName @ js '' --package-manager npm --skip-git --skip-install'')
           parentDir)"

text \<open>\<^verbatim>\<open>generateModule\<close> (lines 107-125); the \<^verbatim>\<open>catch\<close> logs and rethrows.\<close>

definition generateModule :: "env \<Rightarrow> path \<Rightarrow> jsstring \<Rightarrow> unit io" where
  "generateModule e appDir moduleName =
     (let modulesDir = appDir @ [js ''src'', js ''modules'']
      in await (ensureDir e modulesDir) (\<lambda>_.
         execPromise e (js ''nest g resource modules/'' @ moduleName) appDir))"

text \<open>The \<^verbatim>\<open>for (const module of config.modules)\<close> loop of \<^verbatim>\<open>generateApp\<close> (lines 68-71).\<close>

fun generateModules :: "env \<Rightarrow> path \<Rightarrow> jsstring list \<Rightarrow> unit io" where
  "generateModules e appDir [] = resolved ()"
| "generateModules e appDir (m # ms) =
     await (generateModule e appDir m) (\<lambda>_. generateModules e appDir ms)"

text \<open>\<^verbatim>\<open>installDependencies\<close> (lines 195-199).\<close>

definition installDependencies :: "env \<Rightarrow> path \<Rightarrow> jsstring list \<Rightarrow> unit io" where
  "installDependencies e appDir dependencies =
     (let command = js ''npm install '' @ join (js '' '') dependencies @ js '' --save''
      in execPromise e command appDir)"

text \<open>\<^verbatim>\<open>createDatabaseConfig\<close> (lines 201-222).\<close>

definition createDatabaseConfig :: "env \<Rightarrow> path \<Rightarrow> jsstring \<Rightarrow> jsstring \<Rightarrow> unit io" where
  "createDatabaseConfig e appDir database orm =
     (let configDir = appDir @ [js ''src'', js ''config'']
      in await (ensureDir e configDir) (\<lambda>_.
         let configPath = configDir @ [js ''database.config.ts'']
         in writeFile e configPath (configContent database orm)))"

text \<open>\<^verbatim>\<open>updateAppModuleForDatabase\<close> (lines 268-298).\<close>

definition updateAppModuleForDatabase :: "env \<Rightarrow> path \<Rightarrow> jsstring \<Rightarrow> unit io" where
  "updateAppModuleForDatabase e appDir orm =
     (let appModulePath = appDir @ [js ''src'', js ''app.module.ts'']
      in await (readFile e appModulePath) (\<lambda>content.
         writeFile e appModulePath (databasePatch orm content)))"

text \<open>\<^verbatim>\<open>setupDatabase\<close> (lines 127-141).\<close>

definition setupDatabase :: "env \<Rightarrow> path \<Rightarrow> jsstring \<Rightarrow> jsstring \<Rightarrow> unit io" where
  "setupDatabase e appDir database orm =
     (let dependencies = getDatabaseDependencies database orm
      in await (installDependencies e appDir dependencies) (\<lambda>_.
         await (createDatabaseConfig e appDir database orm) (\<lambda>_.
         updateAppModuleForDatabase e appDir orm)))"

text \<open>\<^verbatim>\<open>updateResponseInterceptor\<close> (lines 300-329) and \<^verbatim>\<open>updateErrorInterceptor\<close> (lines 331-366).\<close>

definition updateResponseInterceptor :: "env \<Rightarrow> path \<Rightarrow> unit io" where
  "updateResponseInterceptor e appDir =
     (let filePath = appDir @ [js ''src'', js ''common'', js ''interceptors'', js ''response'',
                               js ''response.interceptor.ts'']
      in writeFile e filePath responseInterceptorContent)"

definition updateErrorInterceptor :: "env \<Rightarrow> path \<Rightarrow> unit io" where
  "updateErrorInterceptor e appDir =
     (let filePath = appDir @ [js ''src'', js ''common'', js ''interceptors'', js ''error'',
                               js ''error.interceptor.ts'']
      in writeFile e filePath errorInterceptorContent)"

text \<open>\<^verbatim>\<open>updateAppModuleForInterceptors\<close> (lines 368-395).\<close>

definition updateAppModuleForInterceptors :: "env \<Rightarrow> path \<Rightarrow> unit io" where
  "updateAppModuleForInterceptors e appDir =
     (let appModulePath = appDir @ [js ''src'', js ''app.module.ts'']
      in await (readFile e appModulePath) (\<lambda>content.
         writeFile e appModulePath (interceptorsPatch content)))"

text \<open>\<^verbatim>\<open>generateInterceptors\<close> (lines 143-163).\<close>

definition generateInterceptors :: "env \<Rightarrow> path \<Rightarrow> unit io" where
  "generateInterceptors e appDir =
     (let interceptorsDir = appDir @ [js ''src'', js ''common'', js ''interceptors'']
      in await (ensureDir e interceptorsDir) (\<lambda>_.
         await (execPromise e (js ''nest g interceptor common/interceptors/response --no-spec'') appDir) (\<lambda>_.
         await (execPromise e (js ''nest g interceptor common/interceptors/error --no-spec'') appDir) (\<lambda>_.
         await (updateResponseInterceptor e appDir) (\<lambda>_.
         await (updateErrorInterceptor e appDir) (\<lambda>_.
         updateAppModuleForInterceptors e appDir))))))"

text \<open>
  The answers: \<^verbatim>\<open>modules\<close> is an array when it comes from the prompt's filter, and may be
  a string otherwise (line 66 tests \<^verbatim>\<open>Array.isArray\<close> and calls \<^verbatim>\<open>split\<close> on anything
  else, which only a string has).
\<close>

datatype modules_input = Arr "jsstring list" | Str jsstring

record config =
  cfg_modules :: modules_input
  cfg_database :: jsstring
  cfg_orm :: jsstring
  cfg_interceptors :: bool

text \<open>Line 66 of \<^verbatim>\<open>generateApp\<close>.\<close>

definition normalizeModules :: "modules_input \<Rightarrow> jsstring list" where
  "normalizeModules ms =
     (case ms of
        Arr a \<Rightarrow> a
      | Str s \<Rightarrow> filter (\<lambda>m. m \<noteq> []) (map (\<lambda>m. trim m) (split_comma s)))"

text \<open>\<^verbatim>\<open>generateApp\<close> (lines 56-84).\<close>

definition generateApp :: "env \<Rightarrow> jsstring \<Rightarrow> config \<Rightarrow> unit io" where
  "generateApp e appName config =
     (let appDir = path_join (cwd e) appName
      in await (ensureDir e appDir) (\<lambda>_.
         await (generateBaseStructure e appDir) (\<lambda>_.
         let modules = normalizeModules (cfg_modules config)
         in await (if length modules > 0 then generateModules e appDir modules else resolved ()) (\<lambda>_.
            await (setupDatabase e appDir (cfg_database config) (cfg_orm config)) (\<lambda>_.
            if cfg_interceptors config then generateInterceptors e appDir else resolved ())))))"

section \<open>Concrete runs\<close>

text \<open>
  The inputs of the concrete runs below: an environment where no call of the file system
  fails and every subprocess exits with status 0 and leaves the files alone, the same
  environment with one command made to fail, and a world whose only file is the root
  module of the application \<^verbatim>\<open>/home/shop\<close>.
\<close>

definition quiet_env :: env where
  "quiet_env = \<lparr>cwd = [js ''home''], subprocess = (\<lambda>command dir fs. (True, fs)),
                 fs_fails = (\<lambda>call fs. False)\<rparr>"

definition failing_env :: "jsstring \<Rightarrow> env" where
  "failing_env bad = \<lparr>cwd = [js ''home''], subprocess = (\<lambda>command dir fs. (command \<noteq> bad, fs)),
                       fs_fails = (\<lambda>call fs. False)\<rparr>"

definition shop :: path where
  "shop = [js ''home'', js ''shop'']"

definition root_module_only :: "jsstring \<Rightarrow> world" where
  "root_module_only content =
     \<lparr>files = (\<lambda>p. if p = shop @ [js ''src'', js ''app.module.ts''] then Some content else None),
      calls = []\<rparr>"

section \<open>The shape of an array block\<close>

text \<open>
  What the specification calls a block shaped as \<^verbatim>\<open>KW: [ ... ]\<close>, stated on the text alone:
  the keyword with its colon, white space, an opening bracket, and a closing bracket
  somewhere after it. \<open>block_at kw s\<close> says that \<open>s\<close> starts with such a block,
  \<open>block_shaped kw s\<close> that \<open>s\<close> contains one.
\<close>

definition block_at :: "jsstring \<Rightarrow> jsstring \<Rightarrow> bool" where
  "block_at kw s \<longleftrightarrow> (\<exists>ws g a. s = kw @ ws @ [0x5B] @ g @ [0x5D] @ a \<and> list_all isSpace ws)"

definition block_shaped :: "jsstring \<Rightarrow> jsstring \<Rightarrow> bool" where
  "block_shaped kw s \<longleftrightarrow> (\<exists>b r. s = b @ r \<and> block_at kw r)"

section \<open>Literals\<close>

lemma unat_of_char16: "unat (of_char c :: 16 word) = of_char c"
proof -
  have "(of_char c :: nat) < 256"
    by (rule nat_of_char_less_256)
  then have "(of_char c :: nat) < 65536"
    by linarith
  moreover have "(of_char c :: 16 word) = of_nat (of_char c)"
    by (simp only: of_nat_of_char)
  ultimately show ?thesis
    by (simp add: unat_of_nat)
qed

lemma of_char16_eq_iff: "(of_char a :: 16 word) = of_char b \<longleftrightarrow> a = b"
proof
  assume "(of_char a :: 16 word) = of_char b"
  then have "unat (of_char a :: 16 word) = unat (of_char b :: 16 word)" by simp
  then have "(of_char a :: nat) = of_char b" by (simp only: unat_of_char16)
  then show "a = b" using inj_of_char [where ?'a = nat] by (simp add: inj_def)
qed simp

lemma inj_js: "inj js"
  unfolding js_def by (rule inj_mapI) (simp add: inj_def of_char16_eq_iff)

lemma js_eq_iff [simp]: "js a = js b \<longleftrightarrow> a = b"
  using inj_js by (simp add: inj_eq)

lemma js_Nil [simp]: "js [] = []"
  by (simp add: js_def)

lemma js_eq_Nil [simp]: "js a = [] \<longleftrightarrow> a = []" "[] = js a \<longleftrightarrow> a = []"
  by (auto simp add: js_def)

lemma js_append: "js (a @ b) = js a @ js b"
  by (simp add: js_def)

lemma prefix_js [simp]: "prefix (js a) (js b) \<longleftrightarrow> prefix a b"
proof
  assume "prefix (js a) (js b)"
  then obtain a' where "prefix a' b" "js a = js a'"
    unfolding js_def by (blast dest: prefix_map_rightE)
  then show "prefix a b" by simp
qed (simp add: js_def map_mono_prefix)

lemma sublist_js [simp]: "sublist (js a) (js b) \<longleftrightarrow> sublist a b"
proof
  assume "sublist (js a) (js b)"
  then obtain a' where "sublist a' b" "js a = js a'"
    unfolding js_def by (blast dest: sublist_map_rightE)
  then show "sublist a b" by simp
qed (simp add: js_def map_mono_sublist)

lemma sq_js: "sq = js [CHR 0x27]"
  by (simp add: sq_def js_def)

lemma toLowerCase_Postgres: "toLowerCase (js ''Postgres'') = js ''postgres''"
  by (simp add: toLowerCase_def js_def)

section \<open>The pattern and the shape it finds\<close>

text \<open>
  The anchored match and the declarative shape agree, and the search returns the leftmost
  match: no match starts before the one it reports.
\<close>

lemma not_isSpace_bracket: "\<not> isSpace 0x5B"
  by (simp add: isSpace_def)

lemma match_at_SomeD:
  assumes "match_at kw s = Some (g, a)"
  shows "\<exists>ws. s = kw @ ws @ [0x5B] @ g @ [0x5D] @ a \<and> list_all isSpace ws \<and> 0x5D \<notin> set g"
proof -
  from assms have pre: "prefix kw s"
    by (simp add: match_at_def split: if_splits)
  define r0 where "r0 = drop (length kw) s"
  from pre have s: "s = kw @ r0"
    by (auto simp add: r0_def prefix_def)
  from assms pre obtain r where
    r: "dropWhile isSpace r0 = 0x5B # r" and mem: "0x5D \<in> set r"
    and g: "g = takeWhile (\<lambda>x. x \<noteq> 0x5D) r" and a: "a = tl (dropWhile (\<lambda>x. x \<noteq> 0x5D) r)"
    by (auto simp add: match_at_def r0_def split: list.splits if_splits)
  have r0: "r0 = takeWhile isSpace r0 @ [0x5B] @ r"
    using takeWhile_dropWhile_id [of isSpace r0] r by simp
  from mem have ne: "dropWhile (\<lambda>x. x \<noteq> 0x5D) r \<noteq> []"
    by (simp add: dropWhile_eq_Nil_conv)
  then have "hd (dropWhile (\<lambda>x. x \<noteq> 0x5D) r) = 0x5D"
    using hd_dropWhile [of "\<lambda>x. x \<noteq> 0x5D" r] by simp
  with ne a have "dropWhile (\<lambda>x. x \<noteq> 0x5D) r = 0x5D # a"
    by (cases "dropWhile (\<lambda>x. x \<noteq> 0x5D) r") simp_all
  with g have "r = g @ [0x5D] @ a"
    using takeWhile_dropWhile_id [of "\<lambda>x. x \<noteq> 0x5D" r] by simp
  moreover have "list_all isSpace (takeWhile isSpace r0)"
    by (simp add: list_all_iff) (meson set_takeWhileD)
  moreover have "0x5D \<notin> set g"
    unfolding g by (auto dest: set_takeWhileD)
  ultimately show ?thesis
    using s r0 by (intro exI [of _ "takeWhile isSpace r0"]) (metis append.assoc)
qed

lemma match_at_block:
  assumes "list_all isSpace ws"
  shows "match_at kw (kw @ ws @ 0x5B # g @ 0x5D # a) =
           Some (takeWhile (\<lambda>x. x \<noteq> 0x5D) (g @ 0x5D # a),
                 tl (dropWhile (\<lambda>x. x \<noteq> 0x5D) (g @ 0x5D # a)))"
proof -
  have "dropWhile isSpace (ws @ 0x5B # g @ 0x5D # a) = 0x5B # g @ 0x5D # a"
    using assms not_isSpace_bracket by (simp add: dropWhile_append3 list_all_iff)
  then show ?thesis
    by (simp add: match_at_def)
qed

lemma match_at_block_first:
  assumes "list_all isSpace ws" and "0x5D \<notin> set g"
  shows "match_at kw (kw @ ws @ 0x5B # g @ 0x5D # a) = Some (g, a)"
proof -
  have "takeWhile (\<lambda>x. x \<noteq> 0x5D) (g @ 0x5D # a) = g @ takeWhile (\<lambda>x. x \<noteq> 0x5D) (0x5D # a)"
    by (rule takeWhile_append2) (use assms(2) in auto)
  moreover
  have "dropWhile (\<lambda>x. x \<noteq> 0x5D) (g @ 0x5D # a) = dropWhile (\<lambda>x. x \<noteq> 0x5D) (0x5D # a)"
    by (rule dropWhile_append2) (use assms(2) in auto)
  ultimately show ?thesis
    using match_at_block [OF assms(1), of kw g a] by simp
qed

lemma block_at_iff: "block_at kw s \<longleftrightarrow> match_at kw s \<noteq> None"
proof
  assume "block_at kw s"
  then obtain ws g a where "s = kw @ ws @ 0x5B # g @ 0x5D # a" "list_all isSpace ws"
    by (auto simp add: block_at_def)
  then show "match_at kw s \<noteq> None"
    by (simp add: match_at_block)
next
  assume "match_at kw s \<noteq> None"
  then obtain g a where "match_at kw s = Some (g, a)" by auto
  from match_at_SomeD [OF this] show "block_at kw s"
    by (auto simp add: block_at_def)
qed

lemma regexp_exec_SomeD:
  "regexp_exec kw s = Some (b, g, a) \<Longrightarrow>
     \<exists>r. s = b @ r \<and> match_at kw r = Some (g, a)
          \<and> (\<forall>i < length b. match_at kw (drop i s) = None)"
proof (induction s arbitrary: b)
  case Nil
  then have "match_at kw [] = Some (g, a)" and "b = []"
    by (cases "match_at kw []"; auto)+
  then show ?case by simp
next
  case (Cons c cs)
  show ?case
  proof (cases "match_at kw (c # cs)")
    case (Some ga)
    obtain g' a' where ga: "ga = (g', a')" by (cases ga)
    from Cons.prems Some ga have "b = []" "g' = g" "a' = a"
      by simp_all
    with Some ga show ?thesis by simp
  next
    case None
    with Cons.prems have m: "map_option (\<lambda>(b, g, a). (c # b, g, a)) (regexp_exec kw cs) = Some (b, g, a)"
      by simp
    then obtain x where x: "regexp_exec kw cs = Some x" and bx: "(\<lambda>(b, g, a). (c # b, g, a)) x = (b, g, a)"
      by (cases "regexp_exec kw cs") simp_all
    obtain b' g' a' where xx: "x = (b', g', a')" by (cases x)
    with bx have b: "b = c # b'" and "g' = g" "a' = a" by simp_all
    with x xx have ex: "regexp_exec kw cs = Some (b', g, a)" by simp
    from Cons.IH [OF ex] obtain r where r: "cs = b' @ r" "match_at kw r = Some (g, a)"
      and first: "\<forall>i < length b'. match_at kw (drop i cs) = None"
      by blast
    have "\<forall>i < length b. match_at kw (drop i (c # cs)) = None"
    proof (intro allI impI)
      fix i assume "i < length b"
      then show "match_at kw (drop i (c # cs)) = None"
        using None first b by (cases i) simp_all
    qed
    with r b show ?thesis by simp
  qed
qed

lemma regexp_exec_None_iff:
  "regexp_exec kw s = None \<longleftrightarrow> (\<forall>i < Suc (length s). match_at kw (drop i s) = None)"
proof (induction s)
  case Nil
  then show ?case by (cases "match_at kw []") auto
next
  case (Cons c cs)
  show ?case
  proof (cases "match_at kw (c # cs)")
    case None
    then have "regexp_exec kw (c # cs) = None \<longleftrightarrow> regexp_exec kw cs = None"
      by simp
    also have "\<dots> \<longleftrightarrow> (\<forall>i < Suc (length cs). match_at kw (drop i cs) = None)"
      by (rule Cons.IH)
    also have "\<dots> \<longleftrightarrow> (\<forall>i < Suc (length (c # cs)). match_at kw (drop i (c # cs)) = None)"
      using None by (subst (2) All_less_Suc2) simp
    finally show ?thesis .
  next
    case (Some ga)
    then have "regexp_exec kw (c # cs) \<noteq> None"
      by (cases ga) simp
    moreover from Some have "\<not> (\<forall>i < Suc (length (c # cs)). match_at kw (drop i (c # cs)) = None)"
      by (auto intro: exI [of _ 0])
    ultimately show ?thesis by blast
  qed
qed

lemma block_shaped_iff: "block_shaped kw s \<longleftrightarrow> regexp_exec kw s \<noteq> None"
proof -
  have "block_shaped kw s \<longleftrightarrow> (\<exists>i < Suc (length s). match_at kw (drop i s) \<noteq> None)"
  proof
    assume "block_shaped kw s"
    then obtain b r where "s = b @ r" "match_at kw r \<noteq> None"
      by (auto simp add: block_shaped_def block_at_iff)
    then show "\<exists>i < Suc (length s). match_at kw (drop i s) \<noteq> None"
      by (intro exI [of _ "length b"]) simp
  next
    assume "\<exists>i < Suc (length s). match_at kw (drop i s) \<noteq> None"
    then obtain i where "match_at kw (drop i s) \<noteq> None" by blast
    moreover have "s = take i s @ drop i s" by simp
    ultimately show "block_shaped kw s"
      unfolding block_shaped_def block_at_iff by blast
  qed
  then show ?thesis
    by (simp add: regexp_exec_None_iff)
qed

lemma regexp_exec_first:
  "match_at kw r = Some (g, a) \<Longrightarrow> (\<forall>i < length b. match_at kw (drop i (b @ r)) = None) \<Longrightarrow>
     regexp_exec kw (b @ r) = Some (b, g, a)"
proof (induction b)
  case Nil
  then show ?case by (cases r) simp_all
next
  case (Cons c b)
  from Cons.prems(2) have "match_at kw (c # b @ r) = None"
    by (auto dest: spec [of _ 0])
  moreover from Cons.prems(2) have "\<forall>i < length b. match_at kw (drop i (b @ r)) = None"
    by (subst (asm) length_Cons, subst (asm) All_less_Suc2) simp
  ultimately show ?case
    using Cons.IH [OF Cons.prems(1)] by simp
qed

text \<open>
  Conversely, a text split as text before, keyword, white space, opening bracket, entries
  without a closing bracket, closing bracket and rest, with no match starting in the text
  before, is matched exactly there.
\<close>

lemma regexp_exec_block:
  assumes "list_all isSpace ws" and "0x5D \<notin> set g"
    and "\<forall>i < length b. match_at kw (drop i (b @ kw @ ws @ 0x5B # g @ 0x5D # a)) = None"
  shows "regexp_exec kw (b @ kw @ ws @ 0x5B # g @ 0x5D # a) = Some (b, g, a)"
  using match_at_block_first [OF assms(1,2)] assms(3) by (rule regexp_exec_first)

text \<open>
  A text put before the string is skipped by the search when no match starts in it; that
  is so when the text ends in a code unit that is not in the keyword and does not contain
  the keyword.
\<close>

lemma regexp_exec_skip:
  "(\<forall>i < length p. match_at kw (drop i (p @ c)) = None) \<Longrightarrow>
     regexp_exec kw (p @ c) = map_option (\<lambda>(b, g, a). (p @ b, g, a)) (regexp_exec kw c)"
proof (induction p)
  case Nil
  then show ?case by (simp add: option.map_ident split_def)
next
  case (Cons x p)
  from Cons.prems have "match_at kw (x # p @ c) = None"
    by (auto dest: spec [of _ 0])
  moreover from Cons.prems have "\<forall>i < length p. match_at kw (drop i (p @ c)) = None"
    by (subst (asm) length_Cons, subst (asm) All_less_Suc2) simp
  ultimately show ?case
    using Cons.IH by (simp add: option.map_comp comp_def split_def)
qed

lemma no_match_in_prefix:
  assumes "p \<noteq> []" and "last p \<notin> set kw" and "\<not> sublist kw p"
  shows "\<forall>i < length p. match_at kw (drop i (p @ c)) = None"
proof (intro allI impI)
  fix i assume i: "i < length p"
  define d where "d = drop i p"
  from i have d: "d \<noteq> []" "last d = last p"
    by (simp_all add: d_def)
  have "\<not> prefix kw (d @ c)"
  proof
    assume "prefix kw (d @ c)"
    then consider "prefix kw d" | us where "kw = d @ us"
      by (auto simp add: prefix_append)
    then show False
    proof cases
      case 1
      then have "sublist kw d" by (rule prefix_imp_sublist)
      moreover have "sublist d p" by (simp add: d_def)
      ultimately have "sublist kw p" by (rule sublist_order.order_trans)
      with assms(3) show False by simp
    next
      case 2
      with d have "last p \<in> set kw" using last_in_set [of d] by auto
      with assms(2) show False by simp
    qed
  qed
  with i show "match_at kw (drop i (p @ c)) = None"
    by (simp add: match_at_def d_def)
qed

lemma replace_first_skip:
  assumes "p \<noteq> []" and "last p \<notin> set kw" and "\<not> sublist kw p"
  shows "replace_first kw template (p @ c) = p @ replace_first kw template c"
  using regexp_exec_skip [OF no_match_in_prefix [OF assms], of c]
  by (cases "regexp_exec kw c") (auto simp add: replace_first_def)

lemma replace_first_no_block:
  "\<not> block_shaped kw s \<Longrightarrow> replace_first kw template s = s"
  by (cases "regexp_exec kw s") (simp_all add: block_shaped_iff replace_first_def)

lemma replace_first_block:
  assumes "block_shaped kw s"
  shows "\<exists>b ws g a. s = b @ kw @ ws @ [0x5B] @ g @ [0x5D] @ a
           \<and> list_all isSpace ws \<and> 0x5D \<notin> set g
           \<and> (\<forall>i < length b. \<not> block_at kw (drop i s))
           \<and> replace_first kw template s = b @ template g @ a"
proof -
  from assms obtain b g a where ex: "regexp_exec kw s = Some (b, g, a)"
    by (auto simp add: block_shaped_iff)
  from regexp_exec_SomeD [OF ex] obtain r where r: "s = b @ r" "match_at kw r = Some (g, a)"
    and first: "\<forall>i < length b. match_at kw (drop i s) = None"
    by blast
  from match_at_SomeD [OF r(2)] obtain ws where
    ws: "r = kw @ ws @ [0x5B] @ g @ [0x5D] @ a" "list_all isSpace ws" "0x5D \<notin> set g"
    by blast
  from ex have rep: "replace_first kw template s = b @ template g @ a"
    by (simp add: replace_first_def)
  from first have first': "\<forall>i < length b. \<not> block_at kw (drop i s)"
    by (simp add: block_at_iff)
  from r(1) ws(1) have "s = b @ kw @ ws @ [0x5B] @ g @ [0x5D] @ a"
    by simp
  with ws(2,3) first' rep show ?thesis
    by blast
qed

section \<open>The two patches of the root module\<close>

lemma js_newline: "js ''\<newline>'' = [0x0A]"
  by (simp add: js_def)

lemma newline_not_in_keywords:
  "0x0A \<notin> set (js ''imports:'')" "0x0A \<notin> set (js ''providers:'')"
  by (simp_all add: js_def)

lemma ormStatements_cases:
  "ormStatements orm \<in> {ormStatements (js ''TypeORM''), ormStatements (js ''Mongoose''),
                         ormStatements (js ''Sequelize''), ([], [])}"
  by (simp add: ormStatements_def)

lemma imports_not_in_import_statement:
  "\<not> sublist (js ''imports:'') (fst (ormStatements orm) @ js ''\<newline>'')"
proof -
  have "\<not> sublist (js ''imports:'') (fst (ormStatements (js ''TypeORM'')) @ js ''\<newline>'')"
    by (simp add: ormStatements_def js_append [symmetric] sublist_Cons_right)
  moreover
  have "\<not> sublist (js ''imports:'') (fst (ormStatements (js ''Mongoose'')) @ js ''\<newline>'')"
    by (simp add: ormStatements_def js_append [symmetric] sublist_Cons_right)
  moreover
  have "\<not> sublist (js ''imports:'') (fst (ormStatements (js ''Sequelize'')) @ js ''\<newline>'')"
    by (simp add: ormStatements_def js_append [symmetric] sublist_Cons_right)
  moreover
  have "\<not> sublist (js ''imports:'') ([] @ js ''\<newline>'')"
    by (simp add: sublist_Cons_right)
  ultimately show ?thesis
    using ormStatements_cases [of orm] by auto
qed

lemma databasePatch_eq:
  "databasePatch orm content =
     fst (ormStatements orm) @ js ''\<newline>'' @ replace_imports (snd (ormStatements orm)) content"
proof -
  let ?p = "fst (ormStatements orm) @ js ''\<newline>''"
  have "?p \<noteq> []" "last ?p \<notin> set (js ''imports:'')"
    using newline_not_in_keywords by (simp_all add: js_newline)
  from replace_first_skip [OF this imports_not_in_import_statement]
  show ?thesis
    by (simp add: databasePatch_def replace_imports_def split_def Let_def)
qed

lemma providers_not_in_import_statement:
  "\<not> sublist (js ''providers:'') (interceptorImportStatement @ js ''\<newline>'')"
  by (simp add: interceptorImportStatement_def js_append [symmetric] sublist_Cons_right)

lemma interceptorsPatch_eq:
  "interceptorsPatch content =
     interceptorImportStatement @ js ''\<newline>'' @ replace_providers providerStatements content"
proof -
  let ?p = "interceptorImportStatement @ js ''\<newline>''"
  have "?p \<noteq> []" "last ?p \<notin> set (js ''providers:'')"
    using newline_not_in_keywords by (simp_all add: js_newline)
  from replace_first_skip [OF this providers_not_in_import_statement]
  show ?thesis
    by (simp add: interceptorsPatch_def replace_providers_def)
qed

lemma updateAppModuleForDatabase_ok:
  assumes "files w (appDir @ [js ''src'', js ''app.module.ts'']) = Some content"
    and "\<not> fs_fails e (ReadFile (appDir @ [js ''src'', js ''app.module.ts''])) (files w)"
    and "\<not> fs_fails e (WriteFile (appDir @ [js ''src'', js ''app.module.ts''])) (files w)"
  shows "updateAppModuleForDatabase e appDir orm w =
           (Inr (), w\<lparr>files := (files w)(appDir @ [js ''src'', js ''app.module.ts''] \<mapsto>
                                         databasePatch orm content)\<rparr>)"
  using assms
  by (simp add: updateAppModuleForDatabase_def Let_def await_def readFile_def writeFile_def)

lemma updateAppModuleForInterceptors_ok:
  assumes "files w (appDir @ [js ''src'', js ''app.module.ts'']) = Some content"
    and "\<not> fs_fails e (ReadFile (appDir @ [js ''src'', js ''app.module.ts''])) (files w)"
    and "\<not> fs_fails e (WriteFile (appDir @ [js ''src'', js ''app.module.ts''])) (files w)"
  shows "updateAppModuleForInterceptors e appDir w =
           (Inr (), w\<lparr>files := (files w)(appDir @ [js ''src'', js ''app.module.ts''] \<mapsto>
                                         interceptorsPatch content)\<rparr>)"
  using assms
  by (simp add: updateAppModuleForInterceptors_def Let_def await_def readFile_def writeFile_def)

lemma js_brackets: "js ''['' = [0x5B]" "js '']'' = [0x5D]" "js '' '' = [0x20]"
  by (simp_all add: js_def)

section \<open>The configuration text and the dependencies\<close>

text \<open>
  C1. The claim: for the database choices and the ORMs TypeORM and Sequelize, the rendered
  configuration has port 5432 when the database is the Postgres choice, 3306 otherwise.
  The templates compare the database with \<^verbatim>\<open>'PostgreSQL'\<close>, while the prompt offers
  \<^verbatim>\<open>'Postgres'\<close>: for the Postgres choice both templates render \<^verbatim>\<open>port: 3306\<close> and the
  text 5432 does not occur in them.
\<close>

theorem postgres_choice_renders_port_3306:
  "js ''Postgres'' \<in> set databaseChoices
   \<and> sublist (js ''port: 3306'') (configContent (js ''Postgres'') (js ''TypeORM''))
   \<and> \<not> sublist (js ''5432'') (configContent (js ''Postgres'') (js ''TypeORM''))
   \<and> sublist (js ''port: 3306'') (configContent (js ''Postgres'') (js ''Sequelize''))
   \<and> \<not> sublist (js ''5432'') (configContent (js ''Postgres'') (js ''Sequelize''))"
  by (simp add: databaseChoices_def configContent_def getTypeORMConfig_def getSequelizeConfig_def
      toLowerCase_Postgres sq_js js_append [symmetric] sublist_Cons_right)

text \<open>
  C2. The claim: every database selection contributes its driver package, so Postgres
  with TypeORM resolves to the TypeORM packages and the Postgres driver. The resolver's
  \<^verbatim>\<open>case 'PostgreSQL'\<close> never matches the prompt's \<^verbatim>\<open>'Postgres'\<close>: the Postgres choice
  resolves to the two TypeORM packages alone, and \<^verbatim>\<open>pg\<close> is added only for the spelling
  the prompt does not offer.
\<close>

theorem postgres_choice_resolves_no_driver:
  "js ''Postgres'' \<in> set databaseChoices
   \<and> js ''PostgreSQL'' \<notin> set databaseChoices
   \<and> getDatabaseDependencies (js ''Postgres'') (js ''TypeORM'') =
       [js ''typeorm'', js ''@nestjs/typeorm'']
   \<and> js ''pg'' \<notin> set (getDatabaseDependencies (js ''Postgres'') (js ''TypeORM''))
   \<and> getDatabaseDependencies (js ''PostgreSQL'') (js ''TypeORM'') =
       [js ''typeorm'', js ''@nestjs/typeorm'', js ''pg'']"
  by (simp add: databaseChoices_def getDatabaseDependencies_def)

text \<open>
  C3. Resolving (MongoDB, Mongoose) leaves the \<^verbatim>\<open>mongodb\<close> driver out and resolving
  (MongoDB, TypeORM) includes it; for every database and ORM the prompt offers, the
  resolved list has no duplicate, starts with the ORM's packages in their order, and
  everything after them is a driver package.
\<close>

theorem dependencies_distinct_orm_first:
  "getDatabaseDependencies (js ''MongoDB'') (js ''Mongoose'') =
     [js ''mongoose'', js ''@nestjs/mongoose'']
   \<and> js ''mongodb'' \<notin> set (getDatabaseDependencies (js ''MongoDB'') (js ''Mongoose''))
   \<and> js ''mongodb'' \<in> set (getDatabaseDependencies (js ''MongoDB'') (js ''TypeORM''))
   \<and> (database \<in> set databaseChoices \<and> orm \<in> set ormChoices \<longrightarrow>
        distinct (getDatabaseDependencies database orm)
        \<and> (\<exists>driver. getDatabaseDependencies database orm =
              (if orm = js ''TypeORM'' then [js ''typeorm'', js ''@nestjs/typeorm'']
               else if orm = js ''Mongoose'' then [js ''mongoose'', js ''@nestjs/mongoose'']
               else [js ''sequelize'', js ''@nestjs/sequelize'', js ''sequelize-typescript''])
              @ driver
            \<and> set driver \<subseteq> {js ''pg'', js ''mongodb'', js ''mysql2''}))"
  by (auto simp add: databaseChoices_def ormChoices_def getDatabaseDependencies_def)

theorem dependencies_distinct_orm_first_witness:
  "js ''MySQL'' \<in> set databaseChoices \<and> js ''Sequelize'' \<in> set ormChoices
   \<and> distinct (getDatabaseDependencies (js ''MySQL'') (js ''Sequelize''))
   \<and> getDatabaseDependencies (js ''MySQL'') (js ''Sequelize'') =
       [js ''sequelize'', js ''@nestjs/sequelize'', js ''sequelize-typescript'']
       @ [js ''mysql2'']"
  using dependencies_distinct_orm_first [of "js ''MySQL''" "js ''Sequelize''"]
  by (simp add: databaseChoices_def ormChoices_def getDatabaseDependencies_def)

lemma sublist_in_middle: "sublist xs ys \<Longrightarrow> sublist xs (ps @ ys @ ss)"
  by (meson sublist_appendI sublist_order.order_trans)

lemma host_port_fields:
  "sublist (js ''host:'') (js '',\<newline>  host: 'localhost',\<newline>  port: '')"
  "sublist (js ''port:'') (js '',\<newline>  host: 'localhost',\<newline>  port: '')"
  by (simp_all add: sublist_Cons_right)

lemma sublist_in_fifth: "sublist xs ys \<Longrightarrow> sublist xs (a @ b @ c @ d @ ys @ e @ f)"
  using sublist_in_middle [of xs ys "a @ b @ c @ d" "e @ f"] by simp

lemma typeorm_sequelize_have_host_port:
  "sublist (js ''host:'') (getTypeORMConfig database)"
  "sublist (js ''port:'') (getTypeORMConfig database)"
  "sublist (js ''host:'') (getSequelizeConfig database)"
  "sublist (js ''port:'') (getSequelizeConfig database)"
  unfolding getTypeORMConfig_def getSequelizeConfig_def
  by (rule sublist_in_fifth, rule host_port_fields)+

text \<open>
  C8. With the ORM Mongoose the configuration text is, whatever the database, an object
  literal of three fields: \<^verbatim>\<open>uri\<close>, whose value is the connection URI
  \<^verbatim>\<open>'mongodb://localhost/your_database'\<close>, \<^verbatim>\<open>useNewUrlParser\<close> and \<^verbatim>\<open>useUnifiedTopology\<close>. It
  has a \<^verbatim>\<open>uri:\<close> field and neither \<^verbatim>\<open>host:\<close> nor \<^verbatim>\<open>port:\<close>, which the texts for TypeORM and
  Sequelize both have for every database. When the directory creation and the write do
  not fail, \<^verbatim>\<open>createDatabaseConfig\<close> resolves and \<^verbatim>\<open>src/config/database.config.ts\<close> holds
  that text.
\<close>

theorem mongoose_config_is_uri_object:
  "configContent database (js ''Mongoose'') =
     js ''\<newline>export const databaseConfig = {\<newline>''
     @ concat (map (\<lambda>(field, v). js ''  '' @ field @ js '': '' @ v @ js '',\<newline>'')
         [(js ''uri'', sq @ js ''mongodb://localhost/your_database'' @ sq),
          (js ''useNewUrlParser'', js ''true''),
          (js ''useUnifiedTopology'', js ''true'')])
     @ js ''};\<newline>''
   \<and> sublist (js ''uri:'') (configContent database (js ''Mongoose''))
   \<and> \<not> sublist (js ''host:'') (configContent database (js ''Mongoose''))
   \<and> \<not> sublist (js ''port:'') (configContent database (js ''Mongoose''))
   \<and> sublist (js ''host:'') (configContent database (js ''TypeORM''))
   \<and> sublist (js ''port:'') (configContent database (js ''TypeORM''))
   \<and> sublist (js ''host:'') (configContent database (js ''Sequelize''))
   \<and> sublist (js ''port:'') (configContent database (js ''Sequelize''))
   \<and> (\<not> fs_fails e (EnsureDir (appDir @ [js ''src'', js ''config''])) (files w)
       \<and> \<not> fs_fails e (WriteFile (appDir @ [js ''src'', js ''config'', js ''database.config.ts'']))
              (files w) \<longrightarrow>
       createDatabaseConfig e appDir database (js ''Mongoose'') w =
         (Inr (), w\<lparr>files := (files w)
            (appDir @ [js ''src'', js ''config'', js ''database.config.ts''] \<mapsto>
               configContent database (js ''Mongoose''))\<rparr>))"
proof -
  have c: "configContent database (js ''Mongoose'') = getMongooseConfig"
    by (simp add: configContent_def)
  have t: "getMongooseConfig =
     js ''\<newline>export const databaseConfig = {\<newline>''
     @ concat (map (\<lambda>(field, v). js ''  '' @ field @ js '': '' @ v @ js '',\<newline>'')
         [(js ''uri'', sq @ js ''mongodb://localhost/your_database'' @ sq),
          (js ''useNewUrlParser'', js ''true''),
          (js ''useUnifiedTopology'', js ''true'')])
     @ js ''};\<newline>''"
    by (simp add: getMongooseConfig_def sq_js js_append [symmetric])
  have u: "sublist (js ''uri:'') getMongooseConfig"
    by (simp add: getMongooseConfig_def sublist_Cons_right)
  have h: "\<not> sublist (js ''host:'') getMongooseConfig"
    by (simp add: getMongooseConfig_def sublist_Cons_right)
  have p: "\<not> sublist (js ''port:'') getMongooseConfig"
    by (simp add: getMongooseConfig_def sublist_Cons_right)
  have o: "configContent database (js ''TypeORM'') = getTypeORMConfig database"
    "configContent database (js ''Sequelize'') = getSequelizeConfig database"
    by (simp_all add: configContent_def)
  have w: "createDatabaseConfig e appDir database (js ''Mongoose'') w =
         (Inr (), w\<lparr>files := (files w)
            (appDir @ [js ''src'', js ''config'', js ''database.config.ts''] \<mapsto>
               configContent database (js ''Mongoose''))\<rparr>)"
    if "\<not> fs_fails e (EnsureDir (appDir @ [js ''src'', js ''config''])) (files w)
       \<and> \<not> fs_fails e (WriteFile (appDir @ [js ''src'', js ''config'', js ''database.config.ts'']))
              (files w)"
    using that
    by (simp add: createDatabaseConfig_def Let_def await_def ensureDir_def writeFile_def)
  show ?thesis
    unfolding o c using t u h p typeorm_sequelize_have_host_port [of database] w [unfolded c]
    by blast
qed

theorem mongoose_config_is_uri_object_witness:
  "\<not> fs_fails quiet_env (EnsureDir (shop @ [js ''src'', js ''config''])) (files (root_module_only []))
   \<and> \<not> fs_fails quiet_env (WriteFile (shop @ [js ''src'', js ''config'', js ''database.config.ts'']))
          (files (root_module_only []))
   \<and> createDatabaseConfig quiet_env shop (js ''MongoDB'') (js ''Mongoose'') (root_module_only []) =
         (Inr (), (root_module_only [])\<lparr>files := (files (root_module_only []))
            (shop @ [js ''src'', js ''config'', js ''database.config.ts''] \<mapsto>
               configContent (js ''MongoDB'') (js ''Mongoose''))\<rparr>)"
proof -
  have ok: "\<not> fs_fails quiet_env (EnsureDir (shop @ [js ''src'', js ''config''])) (files (root_module_only []))
   \<and> \<not> fs_fails quiet_env (WriteFile (shop @ [js ''src'', js ''config'', js ''database.config.ts'']))
          (files (root_module_only []))"
    by (simp add: quiet_env_def)
  from ok mongoose_config_is_uri_object
    [where database = "js ''MongoDB''" and e = quiet_env and appDir = shop and w = "root_module_only []"]
  show ?thesis
    by blast
qed

section \<open>The patches on a root module without or with the block\<close>

text \<open>
  C4. The claim: on a text without the block the patch fails with AnchorNotFound. No
  error exists for a missing anchor: on the root module \<^verbatim>\<open>export class AppModule {}\<close>, which
  has no \<^verbatim>\<open>imports: [ ... ]\<close>, \<^verbatim>\<open>updateAppModuleForDatabase\<close> resolves and the file is
  rewritten with a text that differs from the one read.
\<close>

theorem missing_anchor_is_not_an_error:
  "\<not> block_shaped (js ''imports:'') (js ''export class AppModule {}'')
   \<and> fst (updateAppModuleForDatabase quiet_env shop (js ''TypeORM'')
             (root_module_only (js ''export class AppModule {}''))) = Inr ()
   \<and> files (snd (updateAppModuleForDatabase quiet_env shop (js ''TypeORM'')
             (root_module_only (js ''export class AppModule {}''))))
         (shop @ [js ''src'', js ''app.module.ts'']) =
       Some (js ''import { TypeOrmModule } from '@nestjs/typeorm';\<newline>import { databaseConfig } from './config/database.config';\<newline>export class AppModule {}'')"
proof -
  have nb: "\<not> block_shaped (js ''imports:'') (js ''export class AppModule {}'')"
    by (simp add: block_shaped_iff match_at_def js_def)
  have "databasePatch (js ''TypeORM'') (js ''export class AppModule {}'') =
      js ''import { TypeOrmModule } from '@nestjs/typeorm';\<newline>import { databaseConfig } from './config/database.config';\<newline>export class AppModule {}''"
    unfolding databasePatch_eq replace_imports_def replace_first_no_block [OF nb]
    by (simp add: ormStatements_def js_append [symmetric])
  moreover have "updateAppModuleForDatabase quiet_env shop (js ''TypeORM'')
             (root_module_only (js ''export class AppModule {}'')) =
           (Inr (), (root_module_only (js ''export class AppModule {}''))
              \<lparr>files := (files (root_module_only (js ''export class AppModule {}'')))
                 (shop @ [js ''src'', js ''app.module.ts''] \<mapsto>
                   databasePatch (js ''TypeORM'') (js ''export class AppModule {}''))\<rparr>)"
    by (rule updateAppModuleForDatabase_ok) (simp_all add: root_module_only_def quiet_env_def)
  ultimately show ?thesis
    using nb by simp
qed

text \<open>
  C4, as the code has it. On a text without the keyword's block, \<^verbatim>\<open>replace\<close> returns the
  text as it is, for both keywords; nothing is raised, and \<^verbatim>\<open>updateAppModuleForInterceptors\<close>
  resolves whenever its read and its write do not fail, writing the text read with only
  the interceptor imports and a line break put before it.
\<close>

theorem missing_anchor_leaves_text:
  "(\<not> block_shaped (js ''imports:'') content \<longrightarrow>
      replace_imports moduleImport content = content)
   \<and> (\<not> block_shaped (js ''providers:'') content \<longrightarrow>
      replace_providers statements content = content
      \<and> interceptorsPatch content = interceptorImportStatement @ js ''\<newline>'' @ content
      \<and> (files w (appDir @ [js ''src'', js ''app.module.ts'']) = Some content
           \<and> \<not> fs_fails e (ReadFile (appDir @ [js ''src'', js ''app.module.ts''])) (files w)
           \<and> \<not> fs_fails e (WriteFile (appDir @ [js ''src'', js ''app.module.ts''])) (files w) \<longrightarrow>
          updateAppModuleForInterceptors e appDir w =
            (Inr (), w\<lparr>files := (files w)(appDir @ [js ''src'', js ''app.module.ts''] \<mapsto>
                          interceptorImportStatement @ js ''\<newline>'' @ content)\<rparr>)))"
proof (intro conjI impI)
  assume "\<not> block_shaped (js ''imports:'') content"
  then show "replace_imports moduleImport content = content"
    by (simp add: replace_imports_def replace_first_no_block)
next
  assume nb: "\<not> block_shaped (js ''providers:'') content"
  then show r: "replace_providers statements content = content"
    by (simp add: replace_providers_def replace_first_no_block)
  from nb show p: "interceptorsPatch content = interceptorImportStatement @ js ''\<newline>'' @ content"
    by (simp add: interceptorsPatch_eq replace_providers_def replace_first_no_block)
  assume "files w (appDir @ [js ''src'', js ''app.module.ts'']) = Some content
           \<and> \<not> fs_fails e (ReadFile (appDir @ [js ''src'', js ''app.module.ts''])) (files w)
           \<and> \<not> fs_fails e (WriteFile (appDir @ [js ''src'', js ''app.module.ts''])) (files w)"
  then show "updateAppModuleForInterceptors e appDir w =
            (Inr (), w\<lparr>files := (files w)(appDir @ [js ''src'', js ''app.module.ts''] \<mapsto>
                          interceptorImportStatement @ js ''\<newline>'' @ content)\<rparr>)"
    using updateAppModuleForInterceptors_ok [of w appDir content e] p by simp
qed

theorem missing_anchor_leaves_text_witness:
  "\<not> block_shaped (js ''imports:'') (js ''export class AppModule {}'')
   \<and> \<not> block_shaped (js ''providers:'') (js ''export class AppModule {}'')
   \<and> replace_imports (snd (ormStatements (js ''TypeORM''))) (js ''export class AppModule {}'') =
        js ''export class AppModule {}''
   \<and> replace_providers providerStatements (js ''export class AppModule {}'') =
        js ''export class AppModule {}''
   \<and> updateAppModuleForInterceptors quiet_env shop (root_module_only (js ''export class AppModule {}'')) =
        (Inr (), (root_module_only (js ''export class AppModule {}''))
           \<lparr>files := (files (root_module_only (js ''export class AppModule {}'')))
              (shop @ [js ''src'', js ''app.module.ts''] \<mapsto>
                 interceptorImportStatement @ js ''\<newline>'' @ js ''export class AppModule {}'')\<rparr>)"
proof -
  have i: "\<not> block_shaped (js ''imports:'') (js ''export class AppModule {}'')"
    by (simp add: block_shaped_iff match_at_def js_def)
  have p: "\<not> block_shaped (js ''providers:'') (js ''export class AppModule {}'')"
    by (simp add: block_shaped_iff match_at_def js_def)
  have f: "files (root_module_only (js ''export class AppModule {}''))
             (shop @ [js ''src'', js ''app.module.ts'']) = Some (js ''export class AppModule {}'')"
    by (simp add: root_module_only_def)
  show ?thesis
    using i p f
      missing_anchor_leaves_text [of "js ''export class AppModule {}''"
        "snd (ormStatements (js ''TypeORM''))"
        providerStatements "root_module_only (js ''export class AppModule {}'')" shop quiet_env]
    by (simp add: quiet_env_def)
qed

text \<open>
  C5. The claim: the inserted text is the only difference between the input and the
  output. The replacement template writes the keyword, a colon, one space and the
  bracket itself: on \<^verbatim>\<open>imports:[A]\<close> the output is \<^verbatim>\<open>imports: [A\<close> and so on, which
  does not begin with the input's \<^verbatim>\<open>imports:[A\<close>.
\<close>

theorem patch_normalises_block_header:
  "block_shaped (js ''imports:'') (js ''imports:[A]'')
   \<and> replace_imports (snd (ormStatements (js ''TypeORM''))) (js ''imports:[A]'') =
       js ''imports: [A\<newline>    ,TypeOrmModule.forRoot(databaseConfig),\<newline>  ]''
   \<and> \<not> prefix (js ''imports:[A'')
         (replace_imports (snd (ormStatements (js ''TypeORM''))) (js ''imports:[A]''))"
proof -
  have m: "snd (ormStatements (js ''TypeORM'')) = js '',TypeOrmModule.forRoot(databaseConfig),''"
    by (simp add: ormStatements_def)
  have "replace_imports (js '',TypeOrmModule.forRoot(databaseConfig),'') (js ''imports:[A]'') =
      js ''imports: [A\<newline>    ,TypeOrmModule.forRoot(databaseConfig),\<newline>  ]''"
    by (simp add: replace_imports_def replace_first_def match_at_def js_def isSpace_def)
  moreover have "block_shaped (js ''imports:'') (js ''imports:[A]'')"
    by (simp add: block_shaped_iff match_at_def js_def isSpace_def)
  ultimately show ?thesis
    unfolding m by simp
qed

text \<open>
  C5, as the code has it, for both keywords. A text that contains the block splits into
  the text before the first block, the keyword, white space, the opening bracket, the
  entries up to the first closing bracket, that bracket and the rest; no block starts
  earlier. The output keeps the text before, the entries and the rest character for
  character, puts exactly one space where the white space was, and has the inserted text
  between the entries and the closing bracket.
\<close>

theorem patch_keeps_entries_of_first_block:
  "(block_shaped (js ''imports:'') s \<longrightarrow>
      (\<exists>b ws g a.
          s = b @ js ''imports:'' @ ws @ js ''['' @ g @ js '']'' @ a
        \<and> list_all isSpace ws \<and> 0x5D \<notin> set g
        \<and> (\<forall>i < length b. \<not> block_at (js ''imports:'') (drop i s))
        \<and> replace_imports (snd (ormStatements orm)) s =
            b @ js ''imports:'' @ js '' '' @ js ''['' @ g
              @ (js ''\<newline>    '' @ snd (ormStatements orm) @ js ''\<newline>  '') @ js '']'' @ a))
   \<and> (block_shaped (js ''providers:'') s \<longrightarrow>
      (\<exists>b ws g a.
          s = b @ js ''providers:'' @ ws @ js ''['' @ g @ js '']'' @ a
        \<and> list_all isSpace ws \<and> 0x5D \<notin> set g
        \<and> (\<forall>i < length b. \<not> block_at (js ''providers:'') (drop i s))
        \<and> replace_providers providerStatements s =
            b @ js ''providers:'' @ js '' '' @ js ''['' @ g
              @ (providerStatements @ js ''\<newline>  '') @ js '']'' @ a))"
proof (intro conjI impI)
  assume "block_shaped (js ''imports:'') s"
  from replace_first_block [OF this,
      of "\<lambda>g. js ''imports: ['' @ g @ js ''\<newline>    '' @ snd (ormStatements orm) @ js ''\<newline>  ]''"]
  obtain b ws g a where
    "s = b @ js ''imports:'' @ ws @ [0x5B] @ g @ [0x5D] @ a" "list_all isSpace ws" "0x5D \<notin> set g"
    "\<forall>i < length b. \<not> block_at (js ''imports:'') (drop i s)"
    "replace_imports (snd (ormStatements orm)) s =
       b @ (js ''imports: ['' @ g @ js ''\<newline>    '' @ snd (ormStatements orm) @ js ''\<newline>  ]'') @ a"
    unfolding replace_imports_def by blast
  moreover have "js ''imports: ['' = js ''imports:'' @ js '' '' @ js ''[''"
    "js ''\<newline>  ]'' = js ''\<newline>  '' @ js '']''"
    by (simp_all add: js_append [symmetric])
  ultimately show "\<exists>b ws g a.
          s = b @ js ''imports:'' @ ws @ js ''['' @ g @ js '']'' @ a
        \<and> list_all isSpace ws \<and> 0x5D \<notin> set g
        \<and> (\<forall>i < length b. \<not> block_at (js ''imports:'') (drop i s))
        \<and> replace_imports (snd (ormStatements orm)) s =
            b @ js ''imports:'' @ js '' '' @ js ''['' @ g
              @ (js ''\<newline>    '' @ snd (ormStatements orm) @ js ''\<newline>  '') @ js '']'' @ a"
    by (intro exI [of _ b] exI [of _ ws] exI [of _ g] exI [of _ a]) (simp add: js_brackets)
next
  assume "block_shaped (js ''providers:'') s"
  from replace_first_block [OF this,
      of "\<lambda>g. js ''providers: ['' @ g @ providerStatements @ js ''\<newline>  ]''"]
  obtain b ws g a where
    "s = b @ js ''providers:'' @ ws @ [0x5B] @ g @ [0x5D] @ a" "list_all isSpace ws" "0x5D \<notin> set g"
    "\<forall>i < length b. \<not> block_at (js ''providers:'') (drop i s)"
    "replace_providers providerStatements s =
       b @ (js ''providers: ['' @ g @ providerStatements @ js ''\<newline>  ]'') @ a"
    unfolding replace_providers_def by blast
  moreover have "js ''providers: ['' = js ''providers:'' @ js '' '' @ js ''[''"
    "js ''\<newline>  ]'' = js ''\<newline>  '' @ js '']''"
    by (simp_all add: js_append [symmetric])
  ultimately show "\<exists>b ws g a.
          s = b @ js ''providers:'' @ ws @ js ''['' @ g @ js '']'' @ a
        \<and> list_all isSpace ws \<and> 0x5D \<notin> set g
        \<and> (\<forall>i < length b. \<not> block_at (js ''providers:'') (drop i s))
        \<and> replace_providers providerStatements s =
            b @ js ''providers:'' @ js '' '' @ js ''['' @ g
              @ (providerStatements @ js ''\<newline>  '') @ js '']'' @ a"
    by (intro exI [of _ b] exI [of _ ws] exI [of _ g] exI [of _ a]) (simp add: js_brackets)
qed

theorem patch_keeps_entries_of_first_block_witness:
  "block_shaped (js ''imports:'') (js ''imports: [A], providers:[B]'')
   \<and> block_shaped (js ''providers:'') (js ''imports: [A], providers:[B]'')
   \<and> (\<exists>b ws g a.
          js ''imports: [A], providers:[B]'' = b @ js ''imports:'' @ ws @ js ''['' @ g @ js '']'' @ a
        \<and> list_all isSpace ws \<and> 0x5D \<notin> set g
        \<and> (\<forall>i < length b. \<not> block_at (js ''imports:'') (drop i (js ''imports: [A], providers:[B]'')))
        \<and> replace_imports (snd (ormStatements (js ''Sequelize''))) (js ''imports: [A], providers:[B]'') =
            b @ js ''imports:'' @ js '' '' @ js ''['' @ g
              @ (js ''\<newline>    '' @ snd (ormStatements (js ''Sequelize'')) @ js ''\<newline>  '') @ js '']'' @ a)
   \<and> (\<exists>b ws g a.
          js ''imports: [A], providers:[B]'' = b @ js ''providers:'' @ ws @ js ''['' @ g @ js '']'' @ a
        \<and> list_all isSpace ws \<and> 0x5D \<notin> set g
        \<and> (\<forall>i < length b. \<not> block_at (js ''providers:'') (drop i (js ''imports: [A], providers:[B]'')))
        \<and> replace_providers providerStatements (js ''imports: [A], providers:[B]'') =
            b @ js ''providers:'' @ js '' '' @ js ''['' @ g
              @ (providerStatements @ js ''\<newline>  '') @ js '']'' @ a)"
proof -
  have i: "block_shaped (js ''imports:'') (js ''imports: [A], providers:[B]'')"
    by (simp add: block_shaped_iff match_at_def js_def isSpace_def)
  have p: "block_shaped (js ''providers:'') (js ''imports: [A], providers:[B]'')"
    by (simp add: block_shaped_iff match_at_def js_def isSpace_def)
  from i p patch_keeps_entries_of_first_block
    [of "js ''imports: [A], providers:[B]''" "js ''Sequelize''"]
  show ?thesis
    by blast
qed

text \<open>
  C9. \<^verbatim>\<open>updateAppModuleForDatabase\<close> puts the ORM's import statement and a line break
  before the text it read and only then runs the \<^verbatim>\<open>imports\<close> pattern on the result. The new
  text always begins with the import statement and the line break; when the text read has
  no \<^verbatim>\<open>imports: [ ... ]\<close> block the new text is exactly the import statement, the line break
  and the text read; and whenever the read and the write do not fail the file is
  rewritten with the new text and the call resolves.
\<close>

theorem database_patch_prepends_import:
  "databasePatch orm content =
     replace_imports (snd (ormStatements orm)) (fst (ormStatements orm) @ js ''\<newline>'' @ content)
   \<and> prefix (fst (ormStatements orm) @ js ''\<newline>'') (databasePatch orm content)
   \<and> (\<not> block_shaped (js ''imports:'') content \<longrightarrow>
        databasePatch orm content = fst (ormStatements orm) @ js ''\<newline>'' @ content)
   \<and> (files w (appDir @ [js ''src'', js ''app.module.ts'']) = Some content
        \<and> \<not> fs_fails e (ReadFile (appDir @ [js ''src'', js ''app.module.ts''])) (files w)
        \<and> \<not> fs_fails e (WriteFile (appDir @ [js ''src'', js ''app.module.ts''])) (files w) \<longrightarrow>
      updateAppModuleForDatabase e appDir orm w =
        (Inr (), w\<lparr>files := (files w)(appDir @ [js ''src'', js ''app.module.ts''] \<mapsto>
                      databasePatch orm content)\<rparr>))"
proof (intro conjI impI)
  show "databasePatch orm content =
     replace_imports (snd (ormStatements orm)) (fst (ormStatements orm) @ js ''\<newline>'' @ content)"
    by (simp add: databasePatch_def split_def Let_def)
  show "prefix (fst (ormStatements orm) @ js ''\<newline>'') (databasePatch orm content)"
    by (simp add: databasePatch_eq)
  show "databasePatch orm content = fst (ormStatements orm) @ js ''\<newline>'' @ content"
    if "\<not> block_shaped (js ''imports:'') content"
    using that by (simp add: databasePatch_eq replace_imports_def replace_first_no_block)
  show "updateAppModuleForDatabase e appDir orm w =
        (Inr (), w\<lparr>files := (files w)(appDir @ [js ''src'', js ''app.module.ts''] \<mapsto>
                      databasePatch orm content)\<rparr>)"
    if "files w (appDir @ [js ''src'', js ''app.module.ts'']) = Some content
        \<and> \<not> fs_fails e (ReadFile (appDir @ [js ''src'', js ''app.module.ts''])) (files w)
        \<and> \<not> fs_fails e (WriteFile (appDir @ [js ''src'', js ''app.module.ts''])) (files w)"
    using that by (simp add: updateAppModuleForDatabase_ok)
qed

theorem database_patch_prepends_import_witness:
  "\<not> block_shaped (js ''imports:'') (js ''export class AppModule {}'')
   \<and> databasePatch (js ''Mongoose'') (js ''export class AppModule {}'') =
       js ''import { MongooseModule } from '@nestjs/mongoose';\<newline>import { databaseConfig } from './config/database.config';''
       @ js ''\<newline>'' @ js ''export class AppModule {}''
   \<and> updateAppModuleForDatabase quiet_env shop (js ''Mongoose'')
         (root_module_only (js ''export class AppModule {}'')) =
        (Inr (), (root_module_only (js ''export class AppModule {}''))
           \<lparr>files := (files (root_module_only (js ''export class AppModule {}'')))
              (shop @ [js ''src'', js ''app.module.ts''] \<mapsto>
                 databasePatch (js ''Mongoose'') (js ''export class AppModule {}''))\<rparr>)"
proof -
  have i: "\<not> block_shaped (js ''imports:'') (js ''export class AppModule {}'')"
    by (simp add: block_shaped_iff match_at_def js_def)
  have f: "files (root_module_only (js ''export class AppModule {}''))
             (shop @ [js ''src'', js ''app.module.ts'']) = Some (js ''export class AppModule {}'')"
    by (simp add: root_module_only_def)
  have o: "fst (ormStatements (js ''Mongoose'')) =
     js ''import { MongooseModule } from '@nestjs/mongoose';\<newline>import { databaseConfig } from './config/database.config';''"
    by (simp add: ormStatements_def)
  note t = database_patch_prepends_import [of "js ''Mongoose''" "js ''export class AppModule {}''"
        "root_module_only (js ''export class AppModule {}'')" shop quiet_env]
  from t i have d: "databasePatch (js ''Mongoose'') (js ''export class AppModule {}'') =
      fst (ormStatements (js ''Mongoose'')) @ js ''\<newline>'' @ js ''export class AppModule {}''"
    by blast
  have q: "\<not> fs_fails quiet_env (ReadFile (shop @ [js ''src'', js ''app.module.ts'']))
             (files (root_module_only (js ''export class AppModule {}'')))"
    "\<not> fs_fails quiet_env (WriteFile (shop @ [js ''src'', js ''app.module.ts'']))
             (files (root_module_only (js ''export class AppModule {}'')))"
    by (simp_all add: quiet_env_def)
  from t f q have u: "updateAppModuleForDatabase quiet_env shop (js ''Mongoose'')
         (root_module_only (js ''export class AppModule {}'')) =
        (Inr (), (root_module_only (js ''export class AppModule {}''))
           \<lparr>files := (files (root_module_only (js ''export class AppModule {}'')))
              (shop @ [js ''src'', js ''app.module.ts''] \<mapsto>
                 databasePatch (js ''Mongoose'') (js ''export class AppModule {}''))\<rparr>)"
    by blast
  from i d [unfolded o] u show ?thesis
    by blast
qed

section \<open>The module loop\<close>

lemma execPromise_calls:
  "calls (snd (execPromise e command dir w)) = calls w @ [(command, dir)]"
  by (simp add: execPromise_def split_def Let_def)

lemma execPromise_fst:
  "fst (execPromise e command dir w) =
     (if fst (subprocess e command dir (files w)) then Inr () else Inl (ExecError command dir))"
  by (simp add: execPromise_def split_def Let_def)

lemma generateModule_calls:
  "calls (snd (generateModule e appDir m w)) =
     calls w @ (if fs_fails e (EnsureDir (appDir @ [js ''src'', js ''modules''])) (files w) then []
                else [(js ''nest g resource modules/'' @ m, appDir)])"
  by (simp add: generateModule_def Let_def await_def ensureDir_def execPromise_calls)

lemma generateModule_fst:
  "fst (generateModule e appDir m w) =
     (if fs_fails e (EnsureDir (appDir @ [js ''src'', js ''modules''])) (files w)
      then Inl (EnsureDirError (appDir @ [js ''src'', js ''modules'']))
      else if fst (subprocess e (js ''nest g resource modules/'' @ m) appDir (files w)) then Inr ()
      else Inl (ExecError (js ''nest g resource modules/'' @ m) appDir))"
  by (simp add: generateModule_def Let_def await_def ensureDir_def execPromise_fst)

lemma generateModules_Cons:
  "generateModules e appDir (m # ms) w =
     (if fst (generateModule e appDir m w) = Inr ()
      then generateModules e appDir ms (snd (generateModule e appDir m w))
      else generateModule e appDir m w)"
  by (cases "generateModule e appDir m w"; cases "fst (generateModule e appDir m w)")
     (auto simp add: await_def)

lemma generateModules_calls:
  "\<exists>n \<le> length ms.
      calls (snd (generateModules e appDir ms w)) =
        calls w @ map (\<lambda>m. (js ''nest g resource modules/'' @ m, appDir)) (take n ms)
    \<and> (fst (generateModules e appDir ms w) = Inr () \<longrightarrow> n = length ms)
    \<and> (\<forall>err. fst (generateModules e appDir ms w) = Inl err \<longrightarrow>
          0 < n \<and> err = ExecError (js ''nest g resource modules/'' @ ms ! (n - 1)) appDir
          \<or> n < length ms \<and> err = EnsureDirError (appDir @ [js ''src'', js ''modules'']))"
proof (induction ms arbitrary: w)
  case Nil
  then show ?case by (simp add: resolved_def)
next
  case (Cons m ms)
  let ?w = "snd (generateModule e appDir m w)"
  show ?case
  proof (cases "fst (generateModule e appDir m w) = Inr ()")
    case True
    then have ok: "\<not> fs_fails e (EnsureDir (appDir @ [js ''src'', js ''modules''])) (files w)"
      by (auto simp add: generateModule_fst split: if_splits)
    from Cons.IH [of ?w] obtain n where n: "n \<le> length ms"
      "calls (snd (generateModules e appDir ms ?w)) =
         calls ?w @ map (\<lambda>m. (js ''nest g resource modules/'' @ m, appDir)) (take n ms)"
      "fst (generateModules e appDir ms ?w) = Inr () \<longrightarrow> n = length ms"
      "\<forall>err. fst (generateModules e appDir ms ?w) = Inl err \<longrightarrow>
          0 < n \<and> err = ExecError (js ''nest g resource modules/'' @ ms ! (n - 1)) appDir
          \<or> n < length ms \<and> err = EnsureDirError (appDir @ [js ''src'', js ''modules''])"
      by blast
    from n(4) have "\<forall>err. fst (generateModules e appDir ms ?w) = Inl err \<longrightarrow>
          err = ExecError (js ''nest g resource modules/'' @ (m # ms) ! (Suc n - 1)) appDir
          \<or> Suc n < length (m # ms) \<and> err = EnsureDirError (appDir @ [js ''src'', js ''modules''])"
      by (cases n) auto
    with True ok n(1-3) show ?thesis
      by (intro exI [of _ "Suc n"])
         (simp add: generateModules_Cons generateModule_calls del: generateModules.simps(2))
  next
    case False
    show ?thesis
    proof (cases "fs_fails e (EnsureDir (appDir @ [js ''src'', js ''modules''])) (files w)")
      case True
      with False show ?thesis
        by (intro exI [of _ 0])
           (simp add: generateModules_Cons generateModule_calls generateModule_fst
              del: generateModules.simps(2))
    next
      case ok: False
      with False show ?thesis
        by (intro exI [of _ 1])
           (auto simp add: generateModules_Cons generateModule_calls generateModule_fst
              simp del: generateModules.simps(2) split: if_splits)
    qed
  qed
qed

lemma generateModules_resolved_calls:
  "fst (generateModules e appDir ms w) = Inr () \<Longrightarrow>
     calls (snd (generateModules e appDir ms w)) =
       calls w @ map (\<lambda>m. (js ''nest g resource modules/'' @ m, appDir)) ms"
  using generateModules_calls [of ms e appDir w] by auto

section \<open>The stages of the pipeline\<close>

lemma fs_calls [simp]:
  "calls (snd (ensureDir e p w)) = calls w"
  "calls (snd (readFile e p w)) = calls w"
  "calls (snd (writeFile e p content w)) = calls w"
  "calls (snd (resolved x w)) = calls w"
  by (simp_all add: ensureDir_def readFile_def writeFile_def resolved_def split: option.splits)

lemma await_calls_prefix:
  assumes "\<And>w. prefix (calls w) (calls (snd (m w)))"
    and "\<And>x w. prefix (calls w) (calls (snd (f x w)))"
  shows "prefix (calls w) (calls (snd (await m f w)))"
proof (cases "m w")
  case (Pair r w')
  with assms(1) [of w] have 1: "prefix (calls w) (calls w')" by simp
  show ?thesis
  proof (cases r)
    case (Inl err)
    with Pair 1 show ?thesis by (simp add: await_def)
  next
    case (Inr x)
    with Pair have "await m f w = f x w'" by (simp add: await_def)
    with 1 assms(2) [of w' x] show ?thesis
      by (auto intro: prefix_order.order_trans)
  qed
qed

lemma execPromise_calls_prefix: "prefix (calls w) (calls (snd (execPromise e command dir w)))"
  by (simp add: execPromise_calls)

lemma setupDatabase_rest_calls_prefix:
  "prefix (calls w) (calls (snd (createDatabaseConfig e appDir database orm w)))"
  "prefix (calls w) (calls (snd (updateAppModuleForDatabase e appDir orm w)))"
  unfolding createDatabaseConfig_def updateAppModuleForDatabase_def Let_def
  by (rule await_calls_prefix; simp)+

lemma generateInterceptors_calls_prefix:
  "prefix (calls w) (calls (snd (generateInterceptors e appDir w)))"
  unfolding generateInterceptors_def updateAppModuleForInterceptors_def
    updateResponseInterceptor_def updateErrorInterceptor_def Let_def
  by (intro await_calls_prefix execPromise_calls_prefix) simp_all

lemma await_execPromise_calls_prefix:
  assumes "\<And>x w. prefix (calls w) (calls (snd (f x w)))"
  shows "prefix (calls w @ [(command, dir)]) (calls (snd (await (execPromise e command dir) f w)))"
proof (cases "execPromise e command dir w")
  case (Pair r w')
  then have c: "calls w' = calls w @ [(command, dir)]"
    using execPromise_calls [of e command dir w] by simp
  show ?thesis
  proof (cases r)
    case (Inl err)
    with Pair c show ?thesis by (simp add: await_def)
  next
    case (Inr x)
    with Pair have "await (execPromise e command dir) f w = f x w'" by (simp add: await_def)
    with c assms [of w' x] show ?thesis by simp
  qed
qed

lemma setupDatabase_calls_prefix:
  "prefix (calls w @ [(js ''npm install '' @ join (js '' '') (getDatabaseDependencies database orm)
                        @ js '' --save'', appDir)])
     (calls (snd (await (setupDatabase e appDir database orm) f w)))"
  if "\<And>x w. prefix (calls w) (calls (snd (f x w)))"
proof -
  have "await (setupDatabase e appDir database orm) f =
        await (execPromise e (js ''npm install '' @ join (js '' '') (getDatabaseDependencies database orm)
                        @ js '' --save'') appDir)
          (\<lambda>_. await (await (createDatabaseConfig e appDir database orm)
                   (\<lambda>_. updateAppModuleForDatabase e appDir orm)) f)"
    by (rule ext) (simp add: setupDatabase_def installDependencies_def Let_def await_def
        split: prod.splits sum.splits)
  moreover have "prefix (calls w) (calls (snd (await (await (createDatabaseConfig e appDir database orm)
                   (\<lambda>_. updateAppModuleForDatabase e appDir orm)) f w)))" for w
    by (intro await_calls_prefix setupDatabase_rest_calls_prefix that)
  ultimately show ?thesis
    by (simp add: await_execPromise_calls_prefix)
qed


lemma path_pieces_plain: "0x2F \<notin> set name \<Longrightarrow> path_pieces name = [name]"
  by (induction name) auto

lemma path_join_plain:
  "0x2F \<notin> set name \<Longrightarrow> name \<noteq> [] \<Longrightarrow> name \<noteq> js ''.'' \<Longrightarrow> name \<noteq> js ''..'' \<Longrightarrow>
     path_join dir name = dir @ [name]"
  by (simp add: path_join_def path_pieces_plain)

lemma path_join_examples:
  "path_join [js ''home''] (js ''shop'') = shop"
  "path_join [js ''home''] (js ''shop/'') = shop"
  "path_join [js ''home''] (js ''apps/shop'') = [js ''home'', js ''apps'', js ''shop'']"
  "basename (path_join [js ''home''] (js ''apps/shop'')) = js ''shop''"
  "dirname (path_join [js ''home''] (js ''apps/shop'')) = [js ''home'', js ''apps'']"
  "path_join [js ''home''] (js ''.'') = [js ''home'']"
  "path_join [js ''home''] (js ''..'') = []"
  by (simp_all add: path_join_def shop_def basename_def dirname_def js_def)

lemma generateBaseStructure_calls:
  "calls (snd (generateBaseStructure e appDir w)) =
     calls w @ [(js ''nest new '' @ basename appDir
                   @ js '' --package-manager npm --skip-git --skip-install'', dirname appDir)]"
  by (simp add: generateBaseStructure_def Let_def execPromise_calls)

lemma generateApp_after_base:
  assumes "\<not> fs_fails e (EnsureDir (path_join (cwd e) appName)) (files w)"
    and "generateBaseStructure e (path_join (cwd e) appName) w = (Inr (), w1)"
  shows "generateApp e appName config w =
     await (generateModules e (path_join (cwd e) appName) (normalizeModules (cfg_modules config)))
       (\<lambda>_. await (setupDatabase e (path_join (cwd e) appName) (cfg_database config) (cfg_orm config))
          (\<lambda>_. if cfg_interceptors config then generateInterceptors e (path_join (cwd e) appName)
               else resolved ())) w1"
proof (cases "normalizeModules (cfg_modules config)")
  case Nil
  with assms show ?thesis
    by (simp add: generateApp_def Let_def await_def ensureDir_def resolved_def)
next
  case (Cons m ms)
  with assms show ?thesis
    by (simp add: generateApp_def Let_def await_def ensureDir_def del: generateModules.simps)
qed

lemma generateApp_modules_rejected:
  assumes "\<not> fs_fails e (EnsureDir (path_join (cwd e) appName)) (files w)"
    and "generateBaseStructure e (path_join (cwd e) appName) w = (Inr (), w1)"
    and "fst (generateModules e (path_join (cwd e) appName) (normalizeModules (cfg_modules config)) w1)
           \<noteq> Inr ()"
  shows "generateApp e appName config w =
     generateModules e (path_join (cwd e) appName) (normalizeModules (cfg_modules config)) w1"
proof -
  let ?m = "generateModules e (path_join (cwd e) appName) (normalizeModules (cfg_modules config))"
  obtain r w' where m: "?m w1 = (r, w')" by (cases "?m w1")
  with assms(3) obtain err where "r = Inl err" by (cases r) auto
  with m show ?thesis
    unfolding generateApp_after_base [OF assms(1,2)] by (simp add: await_def)
qed

lemma generateApp_modules_resolved:
  assumes "\<not> fs_fails e (EnsureDir (path_join (cwd e) appName)) (files w)"
    and "generateBaseStructure e (path_join (cwd e) appName) w = (Inr (), w1)"
    and "fst (generateModules e (path_join (cwd e) appName) (normalizeModules (cfg_modules config)) w1)
           = Inr ()"
  shows "prefix (calls w1
            @ map (\<lambda>m. (js ''nest g resource modules/'' @ m, path_join (cwd e) appName))
                (normalizeModules (cfg_modules config))
            @ [(js ''npm install ''
                  @ join (js '' '') (getDatabaseDependencies (cfg_database config) (cfg_orm config))
                  @ js '' --save'', path_join (cwd e) appName)])
          (calls (snd (generateApp e appName config w)))"
proof -
  let ?A = "path_join (cwd e) appName"
  let ?m = "generateModules e ?A (normalizeModules (cfg_modules config))"
  let ?rest = "\<lambda>_::unit. if cfg_interceptors config then generateInterceptors e ?A else resolved ()"
  obtain w2 where m: "?m w1 = (Inr (), w2)"
    using assms(3) by (cases "?m w1") auto
  then have c2: "calls w2 = calls w1
      @ map (\<lambda>m. (js ''nest g resource modules/'' @ m, ?A)) (normalizeModules (cfg_modules config))"
    using generateModules_resolved_calls [OF assms(3)] by simp
  from m have "generateApp e appName config w =
      await (setupDatabase e ?A (cfg_database config) (cfg_orm config)) ?rest w2"
    unfolding generateApp_after_base [OF assms(1,2)] by (simp add: await_def)
  moreover have "prefix (calls w) (calls (snd (?rest x w)))" for x w
    by (simp add: generateInterceptors_calls_prefix)
  then have "prefix (calls w2 @ [(js ''npm install ''
                  @ join (js '' '') (getDatabaseDependencies (cfg_database config) (cfg_orm config))
                  @ js '' --save'', ?A)])
        (calls (snd (await (setupDatabase e ?A (cfg_database config) (cfg_orm config)) ?rest w2)))"
    by (rule setupDatabase_calls_prefix)
  ultimately show ?thesis
    by (simp add: c2)
qed

lemma base_structure_of_shop:
  "cwd quiet_env = [js ''home'']" "cwd (failing_env bad) = [js ''home'']"
  "js ''nest new '' @ basename shop @ js '' --package-manager npm --skip-git --skip-install'' =
     js ''nest new shop --package-manager npm --skip-git --skip-install''"
  "dirname shop = [js ''home'']"
  by (simp_all add: quiet_env_def failing_env_def shop_def basename_def dirname_def
        js_append [symmetric])

text \<open>
  C7. The loop issues its generation calls in the order of the array, one per module: the
  calls it adds to the log are those of the first \<open>n\<close> modules, all of them when it
  resolves; when it rejects, either the call of module \<open>n\<close> is the one that failed and
  is the last one issued, or creating the modules directory failed before the call of the
  next module. With \<^verbatim>\<open>["users", "orders"]\<close> a loop that resolves has issued exactly the two
  calls, in that order, and when the first call fails the call for \<^verbatim>\<open>orders\<close> is never
  issued. \<^verbatim>\<open>generateApp\<close> runs this loop on the configured modules right after the base
  structure: when the loop resolves its calls follow \<^verbatim>\<open>nest new\<close> in the log and
  \<^verbatim>\<open>npm install\<close> follows them, and when it rejects the whole run ends with the loop's
  rejection and the loop's log.
\<close>

theorem modules_generated_in_order:
  "(\<exists>n \<le> length ms.
      calls (snd (generateModules e appDir ms w)) =
        calls w @ map (\<lambda>m. (js ''nest g resource modules/'' @ m, appDir)) (take n ms)
    \<and> (fst (generateModules e appDir ms w) = Inr () \<longrightarrow> n = length ms)
    \<and> (\<forall>err. fst (generateModules e appDir ms w) = Inl err \<longrightarrow>
          0 < n \<and> err = ExecError (js ''nest g resource modules/'' @ ms ! (n - 1)) appDir
          \<or> n < length ms \<and> err = EnsureDirError (appDir @ [js ''src'', js ''modules''])))
   \<and> (fst (generateModules e appDir [js ''users'', js ''orders''] w) = Inr () \<longrightarrow>
        calls (snd (generateModules e appDir [js ''users'', js ''orders''] w)) =
          calls w @ [(js ''nest g resource modules/users'', appDir),
                     (js ''nest g resource modules/orders'', appDir)])
   \<and> (\<not> fs_fails e (EnsureDir (appDir @ [js ''src'', js ''modules''])) (files w)
        \<and> \<not> fst (subprocess e (js ''nest g resource modules/users'') appDir (files w)) \<longrightarrow>
        fst (generateModules e appDir [js ''users'', js ''orders''] w) =
          Inl (ExecError (js ''nest g resource modules/users'') appDir)
        \<and> calls (snd (generateModules e appDir [js ''users'', js ''orders''] w)) =
          calls w @ [(js ''nest g resource modules/users'', appDir)])
   \<and> (\<not> fs_fails e (EnsureDir (path_join (cwd e) appName)) (files w0)
        \<and> generateBaseStructure e (path_join (cwd e) appName) w0 = (Inr (), w1) \<longrightarrow>
          (fst (generateModules e (path_join (cwd e) appName)
                  (normalizeModules (cfg_modules config)) w1) = Inr () \<longrightarrow>
             prefix (calls w1
                 @ map (\<lambda>m. (js ''nest g resource modules/'' @ m, path_join (cwd e) appName))
                     (normalizeModules (cfg_modules config))
                 @ [(js ''npm install ''
                       @ join (js '' '') (getDatabaseDependencies (cfg_database config) (cfg_orm config))
                       @ js '' --save'', path_join (cwd e) appName)])
               (calls (snd (generateApp e appName config w0))))
        \<and> (fst (generateModules e (path_join (cwd e) appName)
                  (normalizeModules (cfg_modules config)) w1) \<noteq> Inr () \<longrightarrow>
             generateApp e appName config w0 =
               generateModules e (path_join (cwd e) appName) (normalizeModules (cfg_modules config)) w1)
        \<and> (cfg_modules config = Arr [js ''users'', js ''orders'']
             \<and> fst (generateApp e appName config w0) = Inr () \<longrightarrow>
             prefix (calls w1 @ [(js ''nest g resource modules/users'', path_join (cwd e) appName),
                                 (js ''nest g resource modules/orders'', path_join (cwd e) appName)])
               (calls (snd (generateApp e appName config w0))))
        \<and> (cfg_modules config = Arr [js ''users'', js ''orders'']
             \<and> \<not> fs_fails e (EnsureDir (path_join (cwd e) appName @ [js ''src'', js ''modules'']))
                    (files w1)
             \<and> \<not> fst (subprocess e (js ''nest g resource modules/users'') (path_join (cwd e) appName)
                         (files w1)) \<longrightarrow>
             fst (generateApp e appName config w0) =
               Inl (ExecError (js ''nest g resource modules/users'') (path_join (cwd e) appName))
             \<and> calls (snd (generateApp e appName config w0)) =
               calls w1 @ [(js ''nest g resource modules/users'', path_join (cwd e) appName)]))"
proof -
  let ?A = "path_join (cwd e) appName"
  let ?M = "normalizeModules (cfg_modules config)"
  let ?users = "js ''nest g resource modules/users''"
  have loop: "\<exists>n \<le> length ms.
      calls (snd (generateModules e appDir ms w)) =
        calls w @ map (\<lambda>m. (js ''nest g resource modules/'' @ m, appDir)) (take n ms)
    \<and> (fst (generateModules e appDir ms w) = Inr () \<longrightarrow> n = length ms)
    \<and> (\<forall>err. fst (generateModules e appDir ms w) = Inl err \<longrightarrow>
          0 < n \<and> err = ExecError (js ''nest g resource modules/'' @ ms ! (n - 1)) appDir
          \<or> n < length ms \<and> err = EnsureDirError (appDir @ [js ''src'', js ''modules'']))"
    by (rule generateModules_calls)
  have two: "calls (snd (generateModules e appDir [js ''users'', js ''orders''] w)) =
          calls w @ [(?users, appDir), (js ''nest g resource modules/orders'', appDir)]"
    if "fst (generateModules e appDir [js ''users'', js ''orders''] w) = Inr ()" for appDir w
    using generateModules_resolved_calls [OF that] by (simp add: js_append [symmetric])
  have first: "fst (generateModules e appDir [js ''users'', js ''orders''] w) =
          Inl (ExecError ?users appDir)
        \<and> calls (snd (generateModules e appDir [js ''users'', js ''orders''] w)) =
          calls w @ [(?users, appDir)]"
    if a: "\<not> fs_fails e (EnsureDir (appDir @ [js ''src'', js ''modules''])) (files w)
        \<and> \<not> fst (subprocess e ?users appDir (files w))" for appDir w
  proof -
    from a have f: "fst (generateModule e appDir (js ''users'') w) = Inl (ExecError ?users appDir)"
      by (simp add: generateModule_fst js_append [symmetric])
    with a show ?thesis
      by (simp add: generateModules_Cons generateModule_calls js_append [symmetric]
            del: generateModules.simps(2))
  qed
  have app: "(fst (generateModules e ?A ?M w1) = Inr () \<longrightarrow>
             prefix (calls w1
                 @ map (\<lambda>m. (js ''nest g resource modules/'' @ m, ?A)) ?M
                 @ [(js ''npm install ''
                       @ join (js '' '') (getDatabaseDependencies (cfg_database config) (cfg_orm config))
                       @ js '' --save'', ?A)])
               (calls (snd (generateApp e appName config w0))))
        \<and> (fst (generateModules e ?A ?M w1) \<noteq> Inr () \<longrightarrow>
             generateApp e appName config w0 = generateModules e ?A ?M w1)
        \<and> (cfg_modules config = Arr [js ''users'', js ''orders'']
             \<and> fst (generateApp e appName config w0) = Inr () \<longrightarrow>
             prefix (calls w1 @ [(?users, ?A), (js ''nest g resource modules/orders'', ?A)])
               (calls (snd (generateApp e appName config w0))))
        \<and> (cfg_modules config = Arr [js ''users'', js ''orders'']
             \<and> \<not> fs_fails e (EnsureDir (?A @ [js ''src'', js ''modules''])) (files w1)
             \<and> \<not> fst (subprocess e ?users ?A (files w1)) \<longrightarrow>
             fst (generateApp e appName config w0) = Inl (ExecError ?users ?A)
             \<and> calls (snd (generateApp e appName config w0)) = calls w1 @ [(?users, ?A)])"
    if base: "\<not> fs_fails e (EnsureDir ?A) (files w0)
        \<and> generateBaseStructure e ?A w0 = (Inr (), w1)"
  proof (intro conjI impI)
    from base have b: "\<not> fs_fails e (EnsureDir ?A) (files w0)"
      "generateBaseStructure e ?A w0 = (Inr (), w1)"
      by simp_all
    note ok = generateApp_modules_resolved [OF b, of config]
    note bad = generateApp_modules_rejected [OF b, of config]
    show "prefix (calls w1
                 @ map (\<lambda>m. (js ''nest g resource modules/'' @ m, ?A)) ?M
                 @ [(js ''npm install ''
                       @ join (js '' '') (getDatabaseDependencies (cfg_database config) (cfg_orm config))
                       @ js '' --save'', ?A)])
               (calls (snd (generateApp e appName config w0)))"
      if "fst (generateModules e ?A ?M w1) = Inr ()"
      using that by (rule ok)
    show "generateApp e appName config w0 = generateModules e ?A ?M w1"
      if "fst (generateModules e ?A ?M w1) \<noteq> Inr ()"
      using that by (rule bad)
    {
      assume a: "cfg_modules config = Arr [js ''users'', js ''orders'']
             \<and> fst (generateApp e appName config w0) = Inr ()"
      then have M: "?M = [js ''users'', js ''orders'']"
        by (simp add: normalizeModules_def)
      have "fst (generateModules e ?A ?M w1) = Inr ()"
      proof (rule ccontr)
        assume "fst (generateModules e ?A ?M w1) \<noteq> Inr ()"
        with bad a show False by simp
      qed
      from ok [OF this] have "prefix (calls w1 @ [(?users, ?A), (js ''nest g resource modules/orders'', ?A)]
          @ [(js ''npm install ''
                       @ join (js '' '') (getDatabaseDependencies (cfg_database config) (cfg_orm config))
                       @ js '' --save'', ?A)])
               (calls (snd (generateApp e appName config w0)))"
        unfolding M by (simp add: js_append [symmetric])
      then show "prefix (calls w1 @ [(?users, ?A), (js ''nest g resource modules/orders'', ?A)])
               (calls (snd (generateApp e appName config w0)))"
        by (metis append.assoc append_prefixD)
    }
    {
      assume a: "cfg_modules config = Arr [js ''users'', js ''orders'']
             \<and> \<not> fs_fails e (EnsureDir (?A @ [js ''src'', js ''modules''])) (files w1)
             \<and> \<not> fst (subprocess e ?users ?A (files w1))"
      then have M: "?M = [js ''users'', js ''orders'']"
        by (simp add: normalizeModules_def)
      from a first [of ?A w1] have f:
        "fst (generateModules e ?A [js ''users'', js ''orders''] w1) = Inl (ExecError ?users ?A)"
        "calls (snd (generateModules e ?A [js ''users'', js ''orders''] w1)) = calls w1 @ [(?users, ?A)]"
        by simp_all
      then have "generateApp e appName config w0 =
          generateModules e ?A [js ''users'', js ''orders''] w1"
        using bad unfolding M by simp
      with f show "fst (generateApp e appName config w0) = Inl (ExecError ?users ?A)"
        "calls (snd (generateApp e appName config w0)) = calls w1 @ [(?users, ?A)]"
        by simp_all
    }
  qed
  from loop two [of appDir w] first [of appDir w] app show ?thesis
    by blast
qed

theorem modules_generated_in_order_witness:
  "prefix [(js ''nest new shop --package-manager npm --skip-git --skip-install'', [js ''home'']),
           (js ''nest g resource modules/users'', shop),
           (js ''nest g resource modules/orders'', shop)]
     (calls (snd (generateApp quiet_env (js ''shop'')
        \<lparr>cfg_modules = Arr [js ''users'', js ''orders''], cfg_database = js ''MySQL'',
         cfg_orm = js ''TypeORM'', cfg_interceptors = False\<rparr>
        (root_module_only (js ''imports: []'')))))
   \<and> fst (generateApp (failing_env (js ''nest g resource modules/users'')) (js ''shop'')
        \<lparr>cfg_modules = Arr [js ''users'', js ''orders''], cfg_database = js ''MySQL'',
         cfg_orm = js ''TypeORM'', cfg_interceptors = False\<rparr>
        (root_module_only (js ''imports: []''))) =
       Inl (ExecError (js ''nest g resource modules/users'') shop)
   \<and> calls (snd (generateApp (failing_env (js ''nest g resource modules/users'')) (js ''shop'')
        \<lparr>cfg_modules = Arr [js ''users'', js ''orders''], cfg_database = js ''MySQL'',
         cfg_orm = js ''TypeORM'', cfg_interceptors = False\<rparr>
        (root_module_only (js ''imports: []'')))) =
       [(js ''nest new shop --package-manager npm --skip-git --skip-install'', [js ''home'']),
        (js ''nest g resource modules/users'', shop)]"
proof -
  let ?config = "\<lparr>cfg_modules = Arr [js ''users'', js ''orders''], cfg_database = js ''MySQL'',
         cfg_orm = js ''TypeORM'', cfg_interceptors = False\<rparr>"
  let ?w = "root_module_only (js ''imports: []'')"
  let ?users = "js ''nest g resource modules/users''"
  let ?bad = "failing_env ?users"
  let ?new = "js ''nest new shop --package-manager npm --skip-git --skip-install''"
  have M: "normalizeModules (cfg_modules ?config) = [js ''users'', js ''orders'']"
    by (simp add: normalizeModules_def)
  have w: "calls ?w = []"
    by (simp add: root_module_only_def)
  \<comment> \<open>the run where every command exits with status 0\<close>
  let ?wa = "snd (generateBaseStructure quiet_env shop ?w)"
  have A: "path_join (cwd quiet_env) (js ''shop'') = shop"
    by (simp add: base_structure_of_shop path_join_examples)
  have "fst (generateBaseStructure quiet_env shop ?w) = Inr ()"
    by (simp add: generateBaseStructure_def Let_def execPromise_fst quiet_env_def)
  then have base: "\<not> fs_fails quiet_env (EnsureDir (path_join (cwd quiet_env) (js ''shop''))) (files ?w)
      \<and> generateBaseStructure quiet_env (path_join (cwd quiet_env) (js ''shop'')) ?w = (Inr (), ?wa)"
    unfolding A by (cases "generateBaseStructure quiet_env shop ?w") (simp add: quiet_env_def)
  have c1: "calls ?wa = [(?new, [js ''home''])]"
    by (simp add: generateBaseStructure_calls base_structure_of_shop w)
  have loop: "fst (generateModules quiet_env (path_join (cwd quiet_env) (js ''shop''))
                (normalizeModules (cfg_modules ?config)) ?wa) = Inr ()"
    unfolding A M
    by (simp add: generateModules_Cons generateModule_fst quiet_env_def resolved_def
          del: generateModules.simps(2))
  note good = modules_generated_in_order
    [where e = quiet_env and appName = "js ''shop''" and config = ?config and ?w0.0 = ?w
       and ?w1.0 = ?wa,
      THEN conjunct2, THEN conjunct2, THEN conjunct2, rule_format, OF base,
      THEN conjunct1, rule_format, OF loop]
  from good have "prefix ([(?new, [js ''home'']), (?users, shop),
        (js ''nest g resource modules/orders'', shop)]
        @ [(js ''npm install ''
              @ join (js '' '') (getDatabaseDependencies (cfg_database ?config) (cfg_orm ?config))
              @ js '' --save'', shop)])
      (calls (snd (generateApp quiet_env (js ''shop'') ?config ?w)))"
    unfolding A M c1 by (simp add: js_append [symmetric])
  then have 1: "prefix [(?new, [js ''home'']), (?users, shop),
        (js ''nest g resource modules/orders'', shop)]
      (calls (snd (generateApp quiet_env (js ''shop'') ?config ?w)))"
    by (rule append_prefixD)
  \<comment> \<open>the run where the call for \<open>users\<close> fails\<close>
  let ?va = "snd (generateBaseStructure ?bad shop ?w)"
  have B: "path_join (cwd ?bad) (js ''shop'') = shop"
    by (simp add: base_structure_of_shop path_join_examples)
  have "fst (generateBaseStructure ?bad shop ?w) = Inr ()"
    by (simp add: generateBaseStructure_def Let_def execPromise_fst failing_env_def
          base_structure_of_shop)
  then have base': "\<not> fs_fails ?bad (EnsureDir (path_join (cwd ?bad) (js ''shop''))) (files ?w)
      \<and> generateBaseStructure ?bad (path_join (cwd ?bad) (js ''shop'')) ?w = (Inr (), ?va)"
    unfolding B by (cases "generateBaseStructure ?bad shop ?w") (simp add: failing_env_def)
  have d1: "calls ?va = [(?new, [js ''home''])]"
    by (simp add: generateBaseStructure_calls base_structure_of_shop w)
  have fails: "cfg_modules ?config = Arr [js ''users'', js ''orders'']
      \<and> \<not> fs_fails ?bad (EnsureDir (path_join (cwd ?bad) (js ''shop'') @ [js ''src'', js ''modules'']))
             (files ?va)
      \<and> \<not> fst (subprocess ?bad ?users (path_join (cwd ?bad) (js ''shop'')) (files ?va))"
    by (simp add: failing_env_def)
  note bad = modules_generated_in_order
    [where e = ?bad and appName = "js ''shop''" and config = ?config and ?w0.0 = ?w and ?w1.0 = ?va,
      THEN conjunct2, THEN conjunct2, THEN conjunct2, rule_format, OF base',
      THEN conjunct2, THEN conjunct2, THEN conjunct2, rule_format, OF fails]
  from bad have 2: "fst (generateApp ?bad (js ''shop'') ?config ?w) = Inl (ExecError ?users shop)"
    "calls (snd (generateApp ?bad (js ''shop'') ?config ?w)) = [(?new, [js ''home'']), (?users, shop)]"
    unfolding B d1 by simp_all
  from 1 2 show ?thesis
    by simp
qed

section \<open>The interceptor stage\<close>

lemma providerStatements_split:
  "providerStatements =
     js '',\<newline>    {\<newline>      provide: APP_INTERCEPTOR,\<newline>      useClass: ResponseInterceptor,\<newline>    }''
     @ js '',\<newline>    {\<newline>      provide: APP_INTERCEPTOR,\<newline>      useClass: ErrorInterceptor,\<newline>    },''"
  by (simp add: providerStatements_def js_append [symmetric])

lemma generateInterceptors_run:
  assumes H: "\<forall>fs. snd (subprocess e (js ''nest g interceptor common/interceptors/response --no-spec'')
                         appDir fs) (appDir @ [js ''src'', js ''app.module.ts''])
                  = fs (appDir @ [js ''src'', js ''app.module.ts''])"
              "\<forall>fs. snd (subprocess e (js ''nest g interceptor common/interceptors/error --no-spec'')
                         appDir fs) (appDir @ [js ''src'', js ''app.module.ts''])
                  = fs (appDir @ [js ''src'', js ''app.module.ts''])"
  shows "(fst (generateInterceptors e appDir w) = Inr () \<longrightarrow>
            files (snd (generateInterceptors e appDir w))
              (appDir @ [js ''src'', js ''common'', js ''interceptors'', js ''response'',
                         js ''response.interceptor.ts'']) = Some responseInterceptorContent
          \<and> files (snd (generateInterceptors e appDir w))
              (appDir @ [js ''src'', js ''common'', js ''interceptors'', js ''error'',
                         js ''error.interceptor.ts'']) = Some errorInterceptorContent
          \<and> (\<exists>c. files w (appDir @ [js ''src'', js ''app.module.ts'']) = Some c
                \<and> files (snd (generateInterceptors e appDir w)) (appDir @ [js ''src'', js ''app.module.ts''])
                    = Some (interceptorsPatch c)))
       \<and> (fst (generateInterceptors e appDir w) \<noteq> Inr () \<longrightarrow>
            files (snd (generateInterceptors e appDir w)) (appDir @ [js ''src'', js ''app.module.ts''])
              = files w (appDir @ [js ''src'', js ''app.module.ts'']))"
  using H
  by (auto simp add: generateInterceptors_def Let_def await_def ensureDir_def execPromise_def
      updateResponseInterceptor_def updateErrorInterceptor_def updateAppModuleForInterceptors_def
      readFile_def writeFile_def split_def split: if_splits option.splits)


lemma generateInterceptors_quiet:
  "files w (appDir @ [js ''src'', js ''app.module.ts'']) = Some c \<Longrightarrow>
     fst (generateInterceptors quiet_env appDir w) = Inr ()"
  by (simp add: generateInterceptors_def Let_def await_def ensureDir_def execPromise_def
      updateResponseInterceptor_def updateErrorInterceptor_def updateAppModuleForInterceptors_def
      readFile_def writeFile_def split_def quiet_env_def)

lemma subprocess_keeps_root_module:
  "\<forall>fs. snd (subprocess quiet_env command dir fs) p = fs p"
  "\<forall>fs. snd (subprocess (failing_env bad) command dir fs) p = fs p"
  by (simp_all add: quiet_env_def failing_env_def)

text \<open>
  C6. The claim: either both interceptor files are produced and two registrations are
  added to the providers array, or the run fails. On a root module without a
  \<^verbatim>\<open>providers: [ ... ]\<close> block the stage resolves, and the root module it leaves has the
  interceptor imports put before it and no registration: \<^verbatim>\<open>useClass\<close> does not occur in it.
\<close>

theorem interceptors_without_providers_block:
  "fst (generateInterceptors quiet_env shop (root_module_only (js ''export class AppModule {}''))) = Inr ()
   \<and> files (snd (generateInterceptors quiet_env shop (root_module_only (js ''export class AppModule {}''))))
         (shop @ [js ''src'', js ''app.module.ts'']) =
       Some (interceptorImportStatement @ js ''\<newline>'' @ js ''export class AppModule {}'')
   \<and> \<not> sublist (js ''useClass'')
         (interceptorImportStatement @ js ''\<newline>'' @ js ''export class AppModule {}'')"
proof -
  let ?w = "root_module_only (js ''export class AppModule {}'')"
  have f: "files ?w (shop @ [js ''src'', js ''app.module.ts'']) = Some (js ''export class AppModule {}'')"
    by (simp add: root_module_only_def)
  have ok: "fst (generateInterceptors quiet_env shop ?w) = Inr ()"
    by (rule generateInterceptors_quiet [OF f])
  note H = subprocess_keeps_root_module(1) subprocess_keeps_root_module(1)
  have nb: "\<not> block_shaped (js ''providers:'') (js ''export class AppModule {}'')"
    by (simp add: block_shaped_iff match_at_def js_def)
  have p: "interceptorsPatch (js ''export class AppModule {}'') =
      interceptorImportStatement @ js ''\<newline>'' @ js ''export class AppModule {}''"
    by (simp add: interceptorsPatch_eq replace_providers_def replace_first_no_block [OF nb])
  from generateInterceptors_run [where e = quiet_env and appDir = shop and w = ?w, OF H] ok f p
  have "files (snd (generateInterceptors quiet_env shop ?w)) (shop @ [js ''src'', js ''app.module.ts'']) =
       Some (interceptorImportStatement @ js ''\<newline>'' @ js ''export class AppModule {}'')"
    by auto
  moreover have "\<not> sublist (js ''useClass'')
         (interceptorImportStatement @ js ''\<newline>'' @ js ''export class AppModule {}'')"
    by (simp add: interceptorImportStatement_def js_append [symmetric] sublist_Cons_right)
  ultimately show ?thesis
    using ok by simp
qed

text \<open>
  C6, as the code has it, when the two \<^verbatim>\<open>nest g interceptor\<close> commands, run in the
  application's directory, leave the root module alone; nothing is asked of any other
  command. When the
  stage resolves, both interceptor files hold their fixed bodies and the root module has
  been rewritten once: the interceptor imports and a line break before the text it had,
  and in that text, when it contains a \<^verbatim>\<open>providers: [ ... ]\<close> block, the two registrations
  inserted by one replacement between the entries of the first such block and its closing
  bracket; without such a block the text is kept as it is. When the stage rejects, the
  root module is as it was; a failure of the second generation step is such a case.
\<close>

theorem interceptors_all_or_root_module_untouched:
  assumes "\<forall>fs. snd (subprocess e (js ''nest g interceptor common/interceptors/response --no-spec'')
                      appDir fs) (appDir @ [js ''src'', js ''app.module.ts''])
               = fs (appDir @ [js ''src'', js ''app.module.ts''])"
    and "\<forall>fs. snd (subprocess e (js ''nest g interceptor common/interceptors/error --no-spec'')
                      appDir fs) (appDir @ [js ''src'', js ''app.module.ts''])
               = fs (appDir @ [js ''src'', js ''app.module.ts''])"
  shows "(fst (generateInterceptors e appDir w) = Inr () \<longrightarrow>
            files (snd (generateInterceptors e appDir w))
              (appDir @ [js ''src'', js ''common'', js ''interceptors'', js ''response'',
                         js ''response.interceptor.ts'']) = Some responseInterceptorContent
          \<and> files (snd (generateInterceptors e appDir w))
              (appDir @ [js ''src'', js ''common'', js ''interceptors'', js ''error'',
                         js ''error.interceptor.ts'']) = Some errorInterceptorContent
          \<and> (\<exists>c. files w (appDir @ [js ''src'', js ''app.module.ts'']) = Some c
                \<and> files (snd (generateInterceptors e appDir w)) (appDir @ [js ''src'', js ''app.module.ts''])
                    = Some (interceptorImportStatement @ js ''\<newline>''
                            @ replace_providers providerStatements c)
                \<and> (\<not> block_shaped (js ''providers:'') c \<longrightarrow>
                      replace_providers providerStatements c = c)
                \<and> (block_shaped (js ''providers:'') c \<longrightarrow>
                      (\<exists>b ws g a.
                          c = b @ js ''providers:'' @ ws @ js ''['' @ g @ js '']'' @ a
                        \<and> list_all isSpace ws \<and> 0x5D \<notin> set g
                        \<and> (\<forall>i < length b. \<not> block_at (js ''providers:'') (drop i c))
                        \<and> replace_providers providerStatements c =
                            b @ js ''providers: ['' @ g
                              @ js '',\<newline>    {\<newline>      provide: APP_INTERCEPTOR,\<newline>      useClass: ResponseInterceptor,\<newline>    }''
                              @ js '',\<newline>    {\<newline>      provide: APP_INTERCEPTOR,\<newline>      useClass: ErrorInterceptor,\<newline>    },''
                              @ js ''\<newline>  ]'' @ a))))
       \<and> (fst (generateInterceptors e appDir w) \<noteq> Inr () \<longrightarrow>
            files (snd (generateInterceptors e appDir w)) (appDir @ [js ''src'', js ''app.module.ts''])
              = files w (appDir @ [js ''src'', js ''app.module.ts'']))
       \<and> (\<not> fs_fails e (EnsureDir (appDir @ [js ''src'', js ''common'', js ''interceptors''])) (files w)
           \<and> fst (subprocess e (js ''nest g interceptor common/interceptors/response --no-spec'')
                    appDir (files w))
           \<and> \<not> fst (subprocess e (js ''nest g interceptor common/interceptors/error --no-spec'') appDir
                    (snd (subprocess e (js ''nest g interceptor common/interceptors/response --no-spec'')
                            appDir (files w)))) \<longrightarrow>
            fst (generateInterceptors e appDir w) =
              Inl (ExecError (js ''nest g interceptor common/interceptors/error --no-spec'') appDir)
          \<and> files (snd (generateInterceptors e appDir w)) (appDir @ [js ''src'', js ''app.module.ts''])
              = files w (appDir @ [js ''src'', js ''app.module.ts'']))"
proof (intro conjI impI)
  note run = generateInterceptors_run [OF assms, of w]
  {
    assume ok: "fst (generateInterceptors e appDir w) = Inr ()"
    with run show "files (snd (generateInterceptors e appDir w))
              (appDir @ [js ''src'', js ''common'', js ''interceptors'', js ''response'',
                         js ''response.interceptor.ts'']) = Some responseInterceptorContent"
      by blast
    from ok run show "files (snd (generateInterceptors e appDir w))
              (appDir @ [js ''src'', js ''common'', js ''interceptors'', js ''error'',
                         js ''error.interceptor.ts'']) = Some errorInterceptorContent"
      by blast
    from ok run obtain c where c: "files w (appDir @ [js ''src'', js ''app.module.ts'']) = Some c"
      "files (snd (generateInterceptors e appDir w)) (appDir @ [js ''src'', js ''app.module.ts''])
         = Some (interceptorsPatch c)"
      by blast
    have no: "\<not> block_shaped (js ''providers:'') c \<longrightarrow> replace_providers providerStatements c = c"
      by (simp add: replace_providers_def replace_first_no_block)
    have yes: "block_shaped (js ''providers:'') c \<longrightarrow>
                      (\<exists>b ws g a.
                          c = b @ js ''providers:'' @ ws @ js ''['' @ g @ js '']'' @ a
                        \<and> list_all isSpace ws \<and> 0x5D \<notin> set g
                        \<and> (\<forall>i < length b. \<not> block_at (js ''providers:'') (drop i c))
                        \<and> replace_providers providerStatements c =
                            b @ js ''providers: ['' @ g
                              @ js '',\<newline>    {\<newline>      provide: APP_INTERCEPTOR,\<newline>      useClass: ResponseInterceptor,\<newline>    }''
                              @ js '',\<newline>    {\<newline>      provide: APP_INTERCEPTOR,\<newline>      useClass: ErrorInterceptor,\<newline>    },''
                              @ js ''\<newline>  ]'' @ a)"
    proof
      assume "block_shaped (js ''providers:'') c"
      from replace_first_block [OF this,
          of "\<lambda>g. js ''providers: ['' @ g @ providerStatements @ js ''\<newline>  ]''"]
      obtain b ws g a where
        "c = b @ js ''providers:'' @ ws @ [0x5B] @ g @ [0x5D] @ a" "list_all isSpace ws" "0x5D \<notin> set g"
        "\<forall>i < length b. \<not> block_at (js ''providers:'') (drop i c)"
        "replace_providers providerStatements c =
           b @ (js ''providers: ['' @ g @ providerStatements @ js ''\<newline>  ]'') @ a"
        unfolding replace_providers_def by blast
      then show "\<exists>b ws g a.
                          c = b @ js ''providers:'' @ ws @ js ''['' @ g @ js '']'' @ a
                        \<and> list_all isSpace ws \<and> 0x5D \<notin> set g
                        \<and> (\<forall>i < length b. \<not> block_at (js ''providers:'') (drop i c))
                        \<and> replace_providers providerStatements c =
                            b @ js ''providers: ['' @ g
                              @ js '',\<newline>    {\<newline>      provide: APP_INTERCEPTOR,\<newline>      useClass: ResponseInterceptor,\<newline>    }''
                              @ js '',\<newline>    {\<newline>      provide: APP_INTERCEPTOR,\<newline>      useClass: ErrorInterceptor,\<newline>    },''
                              @ js ''\<newline>  ]'' @ a"
        unfolding providerStatements_split
        by (intro exI [of _ b] exI [of _ ws] exI [of _ g] exI [of _ a]) (simp add: js_brackets)
    qed
    from c no yes show "\<exists>c. files w (appDir @ [js ''src'', js ''app.module.ts'']) = Some c
                \<and> files (snd (generateInterceptors e appDir w)) (appDir @ [js ''src'', js ''app.module.ts''])
                    = Some (interceptorImportStatement @ js ''\<newline>''
                            @ replace_providers providerStatements c)
                \<and> (\<not> block_shaped (js ''providers:'') c \<longrightarrow>
                      replace_providers providerStatements c = c)
                \<and> (block_shaped (js ''providers:'') c \<longrightarrow>
                      (\<exists>b ws g a.
                          c = b @ js ''providers:'' @ ws @ js ''['' @ g @ js '']'' @ a
                        \<and> list_all isSpace ws \<and> 0x5D \<notin> set g
                        \<and> (\<forall>i < length b. \<not> block_at (js ''providers:'') (drop i c))
                        \<and> replace_providers providerStatements c =
                            b @ js ''providers: ['' @ g
                              @ js '',\<newline>    {\<newline>      provide: APP_INTERCEPTOR,\<newline>      useClass: ResponseInterceptor,\<newline>    }''
                              @ js '',\<newline>    {\<newline>      provide: APP_INTERCEPTOR,\<newline>      useClass: ErrorInterceptor,\<newline>    },''
                              @ js ''\<newline>  ]'' @ a))"
      unfolding interceptorsPatch_eq by (intro exI [of _ c]) (simp only: append_assoc simp_thms)
  }
  {
    assume "fst (generateInterceptors e appDir w) \<noteq> Inr ()"
    with run show "files (snd (generateInterceptors e appDir w)) (appDir @ [js ''src'', js ''app.module.ts''])
              = files w (appDir @ [js ''src'', js ''app.module.ts''])"
      by blast
  }
  {
    assume a: "\<not> fs_fails e (EnsureDir (appDir @ [js ''src'', js ''common'', js ''interceptors''])) (files w)
           \<and> fst (subprocess e (js ''nest g interceptor common/interceptors/response --no-spec'')
                    appDir (files w))
           \<and> \<not> fst (subprocess e (js ''nest g interceptor common/interceptors/error --no-spec'') appDir
                    (snd (subprocess e (js ''nest g interceptor common/interceptors/response --no-spec'')
                            appDir (files w))))"
    then show f: "fst (generateInterceptors e appDir w) =
              Inl (ExecError (js ''nest g interceptor common/interceptors/error --no-spec'') appDir)"
      by (simp add: generateInterceptors_def Let_def await_def ensureDir_def execPromise_def split_def)
    with run show "files (snd (generateInterceptors e appDir w)) (appDir @ [js ''src'', js ''app.module.ts''])
              = files w (appDir @ [js ''src'', js ''app.module.ts''])"
      by simp
  }
qed

theorem interceptors_all_or_root_module_untouched_witness:
  "fst (generateInterceptors quiet_env shop (root_module_only (js ''providers: [A]''))) = Inr ()
   \<and> files (snd (generateInterceptors quiet_env shop (root_module_only (js ''providers: [A]''))))
        (shop @ [js ''src'', js ''common'', js ''interceptors'', js ''response'',
                 js ''response.interceptor.ts'']) = Some responseInterceptorContent
   \<and> files (snd (generateInterceptors quiet_env shop (root_module_only (js ''providers: [A]''))))
        (shop @ [js ''src'', js ''common'', js ''interceptors'', js ''error'',
                 js ''error.interceptor.ts'']) = Some errorInterceptorContent
   \<and> files (snd (generateInterceptors quiet_env shop (root_module_only (js ''providers: [A]''))))
        (shop @ [js ''src'', js ''app.module.ts'']) =
       Some (interceptorImportStatement @ js ''\<newline>''
             @ js ''providers: [A'' @ providerStatements @ js ''\<newline>  ]'')
   \<and> fst (generateInterceptors
             (failing_env (js ''nest g interceptor common/interceptors/error --no-spec'')) shop
             (root_module_only (js ''providers: [A]''))) =
       Inl (ExecError (js ''nest g interceptor common/interceptors/error --no-spec'') shop)
   \<and> files (snd (generateInterceptors
             (failing_env (js ''nest g interceptor common/interceptors/error --no-spec'')) shop
             (root_module_only (js ''providers: [A]''))))
        (shop @ [js ''src'', js ''app.module.ts'']) = Some (js ''providers: [A]'')"
proof -
  let ?w = "root_module_only (js ''providers: [A]'')"
  let ?bad = "js ''nest g interceptor common/interceptors/error --no-spec''"
  let ?p = "shop @ [js ''src'', js ''app.module.ts'']"
  have f: "files ?w ?p = Some (js ''providers: [A]'')"
    by (simp add: root_module_only_def)
  have ok: "fst (generateInterceptors quiet_env shop ?w) = Inr ()"
    by (rule generateInterceptors_quiet [OF f])
  have r: "replace_providers providerStatements (js ''providers: [A]'') =
      js ''providers: [A'' @ providerStatements @ js ''\<newline>  ]''"
    by (simp add: replace_providers_def replace_first_def match_at_def js_def isSpace_def)
  note good = interceptors_all_or_root_module_untouched
    [where e = quiet_env and appDir = shop and w = ?w,
      OF subprocess_keeps_root_module(1) subprocess_keeps_root_module(1)]
  from good ok have "files (snd (generateInterceptors quiet_env shop ?w))
        (shop @ [js ''src'', js ''common'', js ''interceptors'', js ''response'',
                 js ''response.interceptor.ts'']) = Some responseInterceptorContent"
    "files (snd (generateInterceptors quiet_env shop ?w))
        (shop @ [js ''src'', js ''common'', js ''interceptors'', js ''error'',
                 js ''error.interceptor.ts'']) = Some errorInterceptorContent"
    by blast+
  moreover from good ok obtain c where "files ?w ?p = Some c"
    "files (snd (generateInterceptors quiet_env shop ?w)) ?p =
       Some (interceptorImportStatement @ js ''\<newline>'' @ replace_providers providerStatements c)"
    by blast
  with f r have "files (snd (generateInterceptors quiet_env shop ?w)) ?p =
       Some (interceptorImportStatement @ js ''\<newline>''
             @ js ''providers: [A'' @ providerStatements @ js ''\<newline>  ]'')"
    by simp
  moreover
  have hyp: "\<not> fs_fails (failing_env ?bad)
                 (EnsureDir (shop @ [js ''src'', js ''common'', js ''interceptors''])) (files ?w)
           \<and> fst (subprocess (failing_env ?bad)
                    (js ''nest g interceptor common/interceptors/response --no-spec'') shop (files ?w))
           \<and> \<not> fst (subprocess (failing_env ?bad) ?bad shop
                    (snd (subprocess (failing_env ?bad)
                            (js ''nest g interceptor common/interceptors/response --no-spec'')
                            shop (files ?w))))"
    by (simp add: failing_env_def)
  note bad = interceptors_all_or_root_module_untouched
    [where e = "failing_env ?bad" and appDir = shop and w = ?w,
      OF subprocess_keeps_root_module(2) subprocess_keeps_root_module(2)]
  from bad hyp f have "fst (generateInterceptors (failing_env ?bad) shop ?w) = Inl (ExecError ?bad shop)"
    "files (snd (generateInterceptors (failing_env ?bad) shop ?w)) ?p = Some (js ''providers: [A]'')"
    by simp_all
  ultimately show ?thesis
    using ok by simp
qed

section \<open>The modules answer and the step to the database stage\<close>

lemma split_comma_not_Nil [simp]: "split_comma s \<noteq> []"
  by (induction s) (auto split: list.splits)

lemma join_Cons: "ps \<noteq> [] \<Longrightarrow> join sep (p # ps) = p @ sep @ join sep ps"
  by (cases ps) simp_all

lemma join_split_comma: "join [0x2C] (split_comma s) = s"
proof (induction s)
  case Nil
  then show ?case by simp
next
  case (Cons c cs)
  show ?case
  proof (cases "c = 0x2C")
    case True
    with Cons show ?thesis by (simp add: join_Cons)
  next
    case False
    obtain p ps where ps: "split_comma cs = p # ps"
      by (cases "split_comma cs") simp_all
    with Cons have "join [0x2C] (p # ps) = cs" by simp
    then have "join [0x2C] ((c # p) # ps) = c # cs"
      by (cases ps) simp_all
    with False ps show ?thesis by simp
  qed
qed

lemma split_comma_no_comma: "p \<in> set (split_comma s) \<Longrightarrow> 0x2C \<notin> set p"
proof (induction s arbitrary: p)
  case Nil
  then show ?case by simp
next
  case (Cons c cs)
  then show ?case
    by (cases "split_comma cs") (auto split: if_splits)
qed

lemma set_trim: "set (trim m) \<subseteq> set m"
proof -
  have "set (trim m) \<subseteq> set (dropWhile isSpace m)"
    unfolding trim_def by (auto dest: set_dropWhileD)
  also have "\<dots> \<subseteq> set m"
    by (auto dest: set_dropWhileD)
  finally show ?thesis .
qed

lemma trim_ends:
  assumes "trim m \<noteq> []"
  shows "\<not> isSpace (hd (trim m))" and "\<not> isSpace (last (trim m))"
proof -
  define d where "d = dropWhile isSpace m"
  define t where "t = dropWhile isSpace (rev d)"
  have tr: "trim m = rev t"
    by (simp add: trim_def d_def t_def)
  with assms have t: "t \<noteq> []" by simp
  then have "\<not> isSpace (hd t)"
    unfolding t_def by (rule hd_dropWhile)
  with t show "\<not> isSpace (last (trim m))"
    by (simp add: tr last_rev)
  have "rev d = takeWhile isSpace (rev d) @ t"
    by (simp add: t_def)
  then have "d = rev t @ rev (takeWhile isSpace (rev d))"
    by (metis rev_append rev_rev_ident)
  then obtain x where "d = rev t @ x" ..
  with t have "d \<noteq> []" and "hd (rev t) = hd d"
    by (simp_all add: hd_append)
  moreover from \<open>d \<noteq> []\<close> have "\<not> isSpace (hd d)"
    unfolding d_def by (rule hd_dropWhile)
  ultimately show "\<not> isSpace (hd (trim m))"
    by (simp add: tr)
qed

lemma js_comma: "js '','' = [0x2C]"
  by (simp add: js_def)



lemma trim_shape:
  "\<exists>l r. m = l @ trim m @ r \<and> list_all isSpace l \<and> list_all isSpace r"
proof -
  define d where "d = dropWhile isSpace m"
  define t where "t = dropWhile isSpace (rev d)"
  have tr: "trim m = rev t"
    by (simp add: trim_def d_def t_def)
  have "rev d = takeWhile isSpace (rev d) @ t"
    by (simp add: t_def)
  then have "d = rev t @ rev (takeWhile isSpace (rev d))"
    by (metis rev_append rev_rev_ident)
  moreover have "m = takeWhile isSpace m @ d"
    by (simp add: d_def)
  ultimately have "m = takeWhile isSpace m @ trim m @ rev (takeWhile isSpace (rev d))"
    by (simp add: tr)
  moreover have "list_all isSpace (takeWhile isSpace m)"
    "list_all isSpace (rev (takeWhile isSpace (rev d)))"
    by (auto simp add: list_all_iff dest: set_takeWhileD)
  ultimately show ?thesis by blast
qed

text \<open>
  C10. After the directory creation and a base structure that resolved, the log has the
  \<^verbatim>\<open>nest new\<close> call, issued in the parent of the application's directory for its last
  segment. When the normalised modules list is empty the rest of \<^verbatim>\<open>generateApp\<close> is the
  database stage at once: the next call is the \<^verbatim>\<open>npm install\<close> of \<^verbatim>\<open>setupDatabase\<close>. In
  general the list that is iterated is the normalised one: when the loop resolves, the
  generation calls of exactly its entries, in order, stand between \<^verbatim>\<open>nest new\<close> and
  \<^verbatim>\<open>npm install\<close>. An array answer is taken as it is. A string answer is cut at its commas
  into pieces that have no comma and give the string back when joined with commas; each
  piece is trimmed, which removes white space at both ends and nothing else, and the
  empty results are dropped, so every module that is iterated is non-empty, has no white
  space at either end and no comma.
\<close>

theorem empty_modules_go_to_database:
  "(\<not> fs_fails e (EnsureDir (path_join (cwd e) appName)) (files w)
      \<and> generateBaseStructure e (path_join (cwd e) appName) w = (Inr (), w1) \<longrightarrow>
        calls w1 =
          calls w @ [(js ''nest new '' @ basename (path_join (cwd e) appName)
                        @ js '' --package-manager npm --skip-git --skip-install'',
                      dirname (path_join (cwd e) appName))]
      \<and> (normalizeModules (cfg_modules config) = [] \<longrightarrow>
            generateApp e appName config w =
              await (setupDatabase e (path_join (cwd e) appName) (cfg_database config) (cfg_orm config))
                (\<lambda>_. if cfg_interceptors config
                     then generateInterceptors e (path_join (cwd e) appName) else resolved ()) w1
          \<and> prefix (calls w1 @
                [(js ''npm install ''
                    @ join (js '' '') (getDatabaseDependencies (cfg_database config) (cfg_orm config))
                    @ js '' --save'', path_join (cwd e) appName)])
              (calls (snd (generateApp e appName config w))))
      \<and> (fst (generateModules e (path_join (cwd e) appName)
                 (normalizeModules (cfg_modules config)) w1) = Inr () \<longrightarrow>
            prefix (calls w1
                @ map (\<lambda>m. (js ''nest g resource modules/'' @ m, path_join (cwd e) appName))
                    (normalizeModules (cfg_modules config))
                @ [(js ''npm install ''
                      @ join (js '' '') (getDatabaseDependencies (cfg_database config) (cfg_orm config))
                      @ js '' --save'', path_join (cwd e) appName)])
              (calls (snd (generateApp e appName config w)))))
   \<and> normalizeModules (Arr a) = a
   \<and> (\<exists>pieces. pieces \<noteq> [] \<and> join (js '','') pieces = s \<and> (\<forall>p \<in> set pieces. 0x2C \<notin> set p)
         \<and> normalizeModules (Str s) = filter (\<lambda>m. m \<noteq> []) (map trim pieces))
   \<and> (\<exists>l r. m = l @ trim m @ r \<and> list_all isSpace l \<and> list_all isSpace r)
   \<and> (trim m \<noteq> [] \<longrightarrow> \<not> isSpace (hd (trim m)) \<and> \<not> isSpace (last (trim m)))
   \<and> (\<forall>m \<in> set (normalizeModules (Str s)).
         m \<noteq> [] \<and> \<not> isSpace (hd m) \<and> \<not> isSpace (last m) \<and> 0x2C \<notin> set m)
   \<and> normalizeModules (Str (js '' users, ,orders ,'')) = [js ''users'', js ''orders'']
   \<and> normalizeModules (Str []) = []"
proof -
  let ?A = "path_join (cwd e) appName"
  let ?M = "normalizeModules (cfg_modules config)"
  let ?npm = "(js ''npm install ''
                    @ join (js '' '') (getDatabaseDependencies (cfg_database config) (cfg_orm config))
                    @ js '' --save'', ?A)"
  let ?rest = "\<lambda>_::unit. if cfg_interceptors config then generateInterceptors e ?A else resolved ()"
  have app: "calls w1 =
          calls w @ [(js ''nest new '' @ basename ?A
                        @ js '' --package-manager npm --skip-git --skip-install'', dirname ?A)]
      \<and> (?M = [] \<longrightarrow>
            generateApp e appName config w =
              await (setupDatabase e ?A (cfg_database config) (cfg_orm config)) ?rest w1
          \<and> prefix (calls w1 @ [?npm]) (calls (snd (generateApp e appName config w))))
      \<and> (fst (generateModules e ?A ?M w1) = Inr () \<longrightarrow>
            prefix (calls w1 @ map (\<lambda>m. (js ''nest g resource modules/'' @ m, ?A)) ?M @ [?npm])
              (calls (snd (generateApp e appName config w))))"
    if base: "\<not> fs_fails e (EnsureDir ?A) (files w) \<and> generateBaseStructure e ?A w = (Inr (), w1)"
  proof (intro conjI impI)
    from base have b: "\<not> fs_fails e (EnsureDir ?A) (files w)"
      "generateBaseStructure e ?A w = (Inr (), w1)"
      by simp_all
    from b(2) generateBaseStructure_calls [of e ?A w]
    show "calls w1 = calls w @ [(js ''nest new '' @ basename ?A
                        @ js '' --package-manager npm --skip-git --skip-install'', dirname ?A)]"
      by simp
    note ok = generateApp_modules_resolved [OF b, of config]
    show "prefix (calls w1 @ map (\<lambda>m. (js ''nest g resource modules/'' @ m, ?A)) ?M @ [?npm])
              (calls (snd (generateApp e appName config w)))"
      if "fst (generateModules e ?A ?M w1) = Inr ()"
      using that by (rule ok)
    assume n: "?M = []"
    then show "generateApp e appName config w =
              await (setupDatabase e ?A (cfg_database config) (cfg_orm config)) ?rest w1"
      unfolding generateApp_after_base [OF b] by (simp add: await_def resolved_def)
    from n have "fst (generateModules e ?A ?M w1) = Inr ()"
      by (simp add: resolved_def)
    from ok [OF this] n show "prefix (calls w1 @ [?npm]) (calls (snd (generateApp e appName config w)))"
      by simp
  qed
  have arr: "normalizeModules (Arr a) = a"
    by (simp add: normalizeModules_def)
  have str: "\<exists>pieces. pieces \<noteq> [] \<and> join (js '','') pieces = s \<and> (\<forall>p \<in> set pieces. 0x2C \<notin> set p)
         \<and> normalizeModules (Str s) = filter (\<lambda>m. m \<noteq> []) (map trim pieces)"
    by (intro exI [of _ "split_comma s"])
       (simp add: normalizeModules_def js_comma join_split_comma split_comma_no_comma)
  have ends: "trim m \<noteq> [] \<longrightarrow> \<not> isSpace (hd (trim m)) \<and> \<not> isSpace (last (trim m))"
    by (simp add: trim_ends)
  have entries: "\<forall>m \<in> set (normalizeModules (Str s)).
         m \<noteq> [] \<and> \<not> isSpace (hd m) \<and> \<not> isSpace (last m) \<and> 0x2C \<notin> set m"
  proof
    fix m assume "m \<in> set (normalizeModules (Str s))"
    then obtain p where p: "p \<in> set (split_comma s)" "m = trim p" "trim p \<noteq> []"
      by (auto simp add: normalizeModules_def)
    from p split_comma_no_comma [of p s] set_trim [of p] have "0x2C \<notin> set m"
      by auto
    with p show "m \<noteq> [] \<and> \<not> isSpace (hd m) \<and> \<not> isSpace (last m) \<and> 0x2C \<notin> set m"
      by (simp add: trim_ends)
  qed
  have ex1: "normalizeModules (Str (js '' users, ,orders ,'')) = [js ''users'', js ''orders'']"
    by (simp add: normalizeModules_def trim_def js_def isSpace_def)
  have ex2: "normalizeModules (Str []) = []"
    by (simp add: normalizeModules_def trim_def)
  from app arr str trim_shape [of m] ends entries ex1 ex2 show ?thesis
    by (intro conjI impI) blast+
qed

theorem empty_modules_go_to_database_witness:
  "normalizeModules (Str (js '' , '')) = []
   \<and> prefix [(js ''nest new shop --package-manager npm --skip-git --skip-install'', [js ''home'']),
             (js ''npm install typeorm @nestjs/typeorm mysql2 --save'', shop)]
        (calls (snd (generateApp quiet_env (js ''shop'')
           \<lparr>cfg_modules = Str (js '' , ''), cfg_database = js ''MySQL'', cfg_orm = js ''TypeORM'',
            cfg_interceptors = False\<rparr>
           (root_module_only (js ''imports: []'')))))
   \<and> prefix [(js ''nest new shop --package-manager npm --skip-git --skip-install'', [js ''home'']),
             (js ''nest g resource modules/users'', shop),
             (js ''nest g resource modules/orders'', shop),
             (js ''npm install typeorm @nestjs/typeorm mysql2 --save'', shop)]
        (calls (snd (generateApp quiet_env (js ''shop'')
           \<lparr>cfg_modules = Str (js '' users, ,orders ,''), cfg_database = js ''MySQL'',
            cfg_orm = js ''TypeORM'', cfg_interceptors = False\<rparr>
           (root_module_only (js ''imports: []'')))))"
proof -
  let ?none = "\<lparr>cfg_modules = Str (js '' , ''), cfg_database = js ''MySQL'', cfg_orm = js ''TypeORM'',
            cfg_interceptors = False\<rparr>"
  let ?two = "\<lparr>cfg_modules = Str (js '' users, ,orders ,''), cfg_database = js ''MySQL'',
            cfg_orm = js ''TypeORM'', cfg_interceptors = False\<rparr>"
  let ?w = "root_module_only (js ''imports: []'')"
  let ?wa = "snd (generateBaseStructure quiet_env shop ?w)"
  let ?new = "js ''nest new shop --package-manager npm --skip-git --skip-install''"
  have n: "normalizeModules (Str (js '' , '')) = []"
    by (simp add: normalizeModules_def trim_def js_def isSpace_def)
  then have n': "normalizeModules (cfg_modules ?none) = []"
    by simp
  have M: "normalizeModules (cfg_modules ?two) = [js ''users'', js ''orders'']"
    by (simp add: normalizeModules_def trim_def js_def isSpace_def)
  have w: "calls ?w = []"
    by (simp add: root_module_only_def)
  have A: "path_join (cwd quiet_env) (js ''shop'') = shop"
    by (simp add: base_structure_of_shop path_join_examples)
  have "fst (generateBaseStructure quiet_env shop ?w) = Inr ()"
    by (simp add: generateBaseStructure_def Let_def execPromise_fst quiet_env_def)
  then have base: "\<not> fs_fails quiet_env (EnsureDir (path_join (cwd quiet_env) (js ''shop''))) (files ?w)
      \<and> generateBaseStructure quiet_env (path_join (cwd quiet_env) (js ''shop'')) ?w = (Inr (), ?wa)"
    unfolding A by (cases "generateBaseStructure quiet_env shop ?w") (simp add: quiet_env_def)
  have c1: "calls ?wa = [(?new, [js ''home''])]"
    by (simp add: generateBaseStructure_calls base_structure_of_shop w)
  have d: "js ''npm install ''
             @ join (js '' '') (getDatabaseDependencies (js ''MySQL'') (js ''TypeORM''))
             @ js '' --save'' = js ''npm install typeorm @nestjs/typeorm mysql2 --save''"
    by (simp add: getDatabaseDependencies_def js_append [symmetric])
  note none = empty_modules_go_to_database
    [where e = quiet_env and appName = "js ''shop''" and config = ?none and w = ?w and ?w1.0 = ?wa,
      THEN conjunct1, rule_format, OF base, THEN conjunct2, THEN conjunct1, rule_format, OF n',
      THEN conjunct2]
  from none have 1: "prefix [(?new, [js ''home'']),
             (js ''npm install typeorm @nestjs/typeorm mysql2 --save'', shop)]
        (calls (snd (generateApp quiet_env (js ''shop'') ?none ?w)))"
    unfolding A c1 by (simp add: d)
  have loop: "fst (generateModules quiet_env (path_join (cwd quiet_env) (js ''shop''))
                (normalizeModules (cfg_modules ?two)) ?wa) = Inr ()"
    unfolding A M
    by (simp add: generateModules_Cons generateModule_fst quiet_env_def resolved_def
          del: generateModules.simps(2))
  note two = empty_modules_go_to_database
    [where e = quiet_env and appName = "js ''shop''" and config = ?two and w = ?w and ?w1.0 = ?wa,
      THEN conjunct1, rule_format, OF base, THEN conjunct2, THEN conjunct2, rule_format, OF loop]
  from two have 2: "prefix [(?new, [js ''home'']),
             (js ''nest g resource modules/users'', shop),
             (js ''nest g resource modules/orders'', shop),
             (js ''npm install typeorm @nestjs/typeorm mysql2 --save'', shop)]
        (calls (snd (generateApp quiet_env (js ''shop'') ?two ?w)))"
    unfolding A M c1 by (simp add: d js_append [symmetric])
  from n 1 2 show ?thesis
    by simp
qed

end
